theory Spec2Isabelle
  imports Complex_Main "HOL-Library.Sublist"
begin

unbundle bit_operations_syntax

section \<open>JavaScript primitives used by the calendar components\<close>

text \<open>
  Strings are lists of code units below 256 (\<^typ>\<open>string\<close>). A JavaScript number is a
  \<^typ>\<open>real\<close>, and \<open>NaN\<close> is \<open>None\<close> of \<^typ>\<open>real option\<close>. Integers that result from
  \<open>parseInt\<close> and \<open>Math.round\<close> are \<^typ>\<open>int\<close>. The luminance of a colour is compared
  with thresholds that it can reach, so its arithmetic is that of IEEE doubles, each
  operation rounded by \<open>fl\<close> below; pixel geometry and channel mixing are exact.
\<close>

text \<open>\<open>String.prototype.replace(pattern, replacement)\<close> with a one-character string
  pattern: only the first occurrence is replaced.\<close>

fun replaceFirst :: "char \<Rightarrow> string \<Rightarrow> string \<Rightarrow> string" where
  "replaceFirst p rep [] = []"
| "replaceFirst p rep (c # cs) = (if c = p then rep @ cs else c # replaceFirst p rep cs)"

text \<open>\<open>String.prototype.slice(begin, end)\<close> for \<open>0 \<le> begin \<le> end\<close>.\<close>

definition slice :: "nat \<Rightarrow> nat \<Rightarrow> string \<Rightarrow> string" where
  "slice b e s = take (e - b) (drop b s)"

text \<open>White space that \<open>parseInt\<close> skips (the code units of \<open>StrWhiteSpaceChar\<close> below 256):
  TAB, LF, VT, FF, CR, SP, NBSP.\<close>

definition isStrWhiteSpace :: "char \<Rightarrow> bool" where
  "isStrWhiteSpace c \<longleftrightarrow> (of_char c :: nat) \<in> {9, 10, 11, 12, 13, 32, 160}"

text \<open>The value of a radix-16 digit: \<open>0-9\<close>, \<open>a-f\<close>, \<open>A-F\<close>.\<close>

definition hexDigitValue :: "char \<Rightarrow> nat option" where
  "hexDigitValue c =
     (let n = (of_char c :: nat) in
      if 48 \<le> n \<and> n \<le> 57 then Some (n - 48)
      else if 97 \<le> n \<and> n \<le> 102 then Some (n - 87)
      else if 65 \<le> n \<and> n \<le> 70 then Some (n - 55)
      else None)"

definition isHexDigit :: "char \<Rightarrow> bool" where
  "isHexDigit c \<longleftrightarrow> hexDigitValue c \<noteq> None"

definition hexNumber :: "string \<Rightarrow> nat" where
  "hexNumber Z =
     foldl (\<lambda>acc c. 16 * acc + (case hexDigitValue c of Some d \<Rightarrow> d | None \<Rightarrow> 0)) 0 Z"

text \<open>\<open>Number.parseInt(string, 16)\<close>: skip leading white space, read a sign, strip a
  \<open>0x\<close>/\<open>0X\<close> prefix, read the longest run of radix-16 digits; \<open>NaN\<close> when that run
  is empty.\<close>

definition parseInt16 :: "string \<Rightarrow> int option" where
  "parseInt16 inputString =
     (let S = dropWhile isStrWhiteSpace inputString;
          sign = (if S \<noteq> [] \<and> hd S = CHR ''-'' then - 1 else 1 :: int);
          S1 = (if S \<noteq> [] \<and> (hd S = CHR ''+'' \<or> hd S = CHR ''-'') then tl S else S);
          S2 = (if take 2 S1 = ''0x'' \<or> take 2 S1 = ''0X'' then drop 2 S1 else S1);
          Z = takeWhile isHexDigit S2
      in if Z = [] then None else Some (sign * int (hexNumber Z)))"

text \<open>\<open>Math.round\<close>: the nearest integer, ties towards \<open>+\<infinity>\<close>.\<close>

definition Math_round :: "real \<Rightarrow> int" where
  "Math_round x = \<lfloor>x + 1 / 2\<rfloor>"

text \<open>\<open>ToInt32\<close>, applied by \<open>>>\<close> and \<open>&\<close> to their operands.\<close>

definition ToInt32 :: "int \<Rightarrow> int" where
  "ToInt32 n = signed_take_bit 31 n"

text \<open>\<open>Number.prototype.toString(16)\<close> on an integer.\<close>

definition hexDigitChar :: "nat \<Rightarrow> char" where
  "hexDigitChar d = ''0123456789abcdef'' ! d"

fun natToString16 :: "nat \<Rightarrow> string" where
  "natToString16 n =
     (if n < 16 then [hexDigitChar n] else natToString16 (n div 16) @ [hexDigitChar (n mod 16)])"

definition toString16 :: "int \<Rightarrow> string" where
  "toString16 v = (if v < 0 then CHR ''-'' # natToString16 (nat (- v)) else natToString16 (nat v))"

text \<open>\<open>String.prototype.padStart(n, '0')\<close>.\<close>

definition padStart :: "nat \<Rightarrow> char \<Rightarrow> string \<Rightarrow> string" where
  "padStart n c s = replicate (n - length s) c @ s"

subsection \<open>Rounding to a double\<close>

text \<open>\<open>pow2 k\<close> is \<open>2\<close> to the power \<open>k\<close>.\<close>

definition pow2 :: "int \<Rightarrow> real" where
  "pow2 k = (if 0 \<le> k then 2 ^ nat k else 1 / 2 ^ nat (- k))"

text \<open>The binary exponent of a positive number \<open>a\<close>: the \<open>k\<close> with \<open>2^k \<le> a < 2^(k+1)\<close>, found
  by stepping from the start value, and not below \<open>-1022\<close>, where the subnormal numbers
  begin. The fuel covers the exponent range of a double.\<close>

fun exponentFrom :: "nat \<Rightarrow> real \<Rightarrow> int \<Rightarrow> int" where
  "exponentFrom fuel a k =
     (if fuel = 0 then k
      else if a < pow2 k \<and> - 1022 < k then exponentFrom (fuel - 1) a (k - 1)
      else if pow2 (k + 1) \<le> a then exponentFrom (fuel - 1) a (k + 1)
      else k)"

text \<open>The nearest integer, ties to the even one.\<close>

definition roundEven :: "real \<Rightarrow> int" where
  "roundEven m =
     (let f = \<lfloor>m\<rfloor>; d = m - real_of_int f in
      if d < 1 / 2 then f else if 1 / 2 < d then f + 1 else if even f then f else f + 1)"

text \<open>\<open>fl x\<close> is the double nearest to \<open>x\<close> (round to nearest, ties to even, 53 significant
  bits). Magnitudes of \<open>2^1024\<close> and more, which round to \<open>Infinity\<close>, do not occur: the
  operands of the luminance are at most 255.\<close>

definition fl :: "real \<Rightarrow> real" where
  "fl x =
     (if x = 0 then 0
      else
        let a = \<bar>x\<bar>;
            e = exponentFrom 2100 a 0;
            ulp = pow2 (e - 52)
        in sgn x * (real_of_int (roundEven (a / ulp)) * ulp))"


declare exponentFrom.simps [simp del]

section \<open>Color derivation (CalendarView.tsx)\<close>

text \<open>\<open>Number.parseInt(normalized.slice(b, e), 16) / 255\<close>, a division of doubles; \<open>None\<close> is
  \<open>NaN\<close>.\<close>

definition channel255 :: "nat \<Rightarrow> nat \<Rightarrow> string \<Rightarrow> real option" where
  "channel255 b e normalized =
     map_option (\<lambda>n. fl (real_of_int n / 255)) (parseInt16 (slice b e normalized))"

text \<open>\<open>0.2126 * r + 0.7152 * g + 0.0722 * b\<close>: each literal is the nearest double, each
  product and each sum, taken from the left, is rounded.\<close>

definition luminanceOf :: "string \<Rightarrow> real option" where
  "luminanceOf normalized =
     (case (channel255 0 2 normalized, channel255 2 4 normalized, channel255 4 6 normalized) of
        (Some r, Some g, Some b) \<Rightarrow>
          Some (fl (fl (fl (fl 0.2126 * r) + fl (fl 0.7152 * g)) + fl (fl 0.0722 * b)))
      | _ \<Rightarrow> None)"

text \<open>Comparisons with \<open>NaN\<close> are false.\<close>

definition numLess :: "real option \<Rightarrow> real \<Rightarrow> bool" where
  "numLess x y = (case x of None \<Rightarrow> False | Some v \<Rightarrow> v < y)"

definition numGreater :: "real option \<Rightarrow> real \<Rightarrow> bool" where
  "numGreater x y = (case x of None \<Rightarrow> False | Some v \<Rightarrow> v > y)"

definition getAdaptiveTextColor :: "string \<Rightarrow> bool \<Rightarrow> string" where
  "getAdaptiveTextColor hex preferLight =
     (if hex = [] then (if preferLight then ''#ffffff'' else ''#111827'')
      else
        let normalized = replaceFirst CHR ''#'' [] hex in
        if length normalized \<noteq> 6 then (if preferLight then ''#ffffff'' else ''#111827'')
        else
          let luminance = luminanceOf normalized in
          if preferLight then (if numLess luminance 0.75 then ''#ffffff'' else ''#1f2937'')
          else (if numGreater luminance 0.5 then ''#1f2937'' else ''#ffffff''))"

definition mixChannel :: "real \<Rightarrow> int \<Rightarrow> int" where
  "mixChannel ratio channel =
     min 255 (Math_round (real_of_int channel + (255 - real_of_int channel) * ratio))"

text \<open>The array \<open>[lr, lg, lb]\<close> of \<open>lightenColor\<close>; \<open>None\<close> when one of its three
  guards returns \<open>hex\<close> early.\<close>

definition lightenChannels :: "string \<Rightarrow> real \<Rightarrow> int list option" where
  "lightenChannels hex ratio =
     (if hex = [] then None
      else
        let normalized = replaceFirst CHR ''#'' [] hex in
        if length normalized \<noteq> 6 then None
        else
          case parseInt16 normalized of
            None \<Rightarrow> None
          | Some num \<Rightarrow>
              let r = ToInt32 (drop_bit 16 (ToInt32 num)) AND 255;
                  g = ToInt32 (drop_bit 8 (ToInt32 num)) AND 255;
                  b = ToInt32 num AND 255;
                  lr = mixChannel ratio r;
                  lg = mixChannel ratio g;
                  lb = mixChannel ratio b
              in Some [lr, lg, lb])"

definition lightenColor :: "string \<Rightarrow> real \<Rightarrow> string" where
  "lightenColor hex ratio =
     (case lightenChannels hex ratio of
        None \<Rightarrow> hex
      | Some channels \<Rightarrow>
          CHR ''#'' # concat (map (\<lambda>value. padStart 2 CHR ''0'' (toString16 value)) channels))"

subsection \<open>Well-formed colour strings\<close>

text \<open>A well-formed colour is six radix-16 digits, optionally preceded by \<open>#\<close>.\<close>

definition hexDigitsOf :: "string \<Rightarrow> string" where
  "hexDigitsOf hex = (if hex \<noteq> [] \<and> hd hex = CHR ''#'' then tl hex else hex)"

definition wellFormedHex :: "string \<Rightarrow> bool" where
  "wellFormedHex hex \<longleftrightarrow> length (hexDigitsOf hex) = 6 \<and> list_all isHexDigit (hexDigitsOf hex)"

text \<open>The value of a digit (0 for any other character) and of a two-digit channel.\<close>

definition hv :: "char \<Rightarrow> nat" where
  "hv c = (case hexDigitValue c of Some d \<Rightarrow> d | None \<Rightarrow> 0)"

definition channelAt :: "nat \<Rightarrow> string \<Rightarrow> nat" where
  "channelAt i hex = 16 * hv (hexDigitsOf hex ! i) + hv (hexDigitsOf hex ! Suc i)"


text \<open>The canonical spelling of a colour: \<open>#\<close> and the six digits in lower case.\<close>

definition lowerHexChar :: "char \<Rightarrow> char" where
  "lowerHexChar c =
     (if 65 \<le> (of_char c :: nat) \<and> (of_char c :: nat) \<le> 70 then char_of (of_char c + 32 :: nat) else c)"

definition canonicalHex :: "string \<Rightarrow> string" where
  "canonicalHex hex = CHR ''#'' # map lowerHexChar (hexDigitsOf hex)"

section \<open>Data model (types/calendar.ts)\<close>

datatype ShowAs = Free | Tentative | Busy | Oof | WorkingElsewhere | Unknown

record DateTimeInfo =
  dateTime :: string
  timeZone :: string

text \<open>\<open>CalendarEvent\<close>. The fields \<open>id\<close> and \<open>end\<close> are written \<open>id'\<close> and \<open>end'\<close>;
  \<open>location\<close> holds \<open>location?.displayName\<close>.\<close>

record CalendarEvent =
  id' :: string
  subject :: string
  start :: DateTimeInfo
  end' :: DateTimeInfo
  location :: "string option"
  showAs :: ShowAs
  isAllDay :: bool
  userEmail :: string
  userName :: string

record UserInfo =
  email :: string
  displayName :: string
  color :: string

text \<open>A \<open>Date\<close> is its time value in milliseconds since the epoch; \<open>None\<close> is the
  \<open>Invalid Date\<close>, whose \<open>getTime()\<close> is \<open>NaN\<close>.\<close>

type_synonym Date = "int option"

text \<open>\<open>FullCalendarEvent\<close> and its \<open>extendedProps\<close>. The fields \<open>id\<close>, \<open>start\<close>, \<open>end\<close>
  are \<open>fcId\<close>, \<open>fcStart\<close>, \<open>fcEnd\<close>; \<open>userEmail\<close>, \<open>userName\<close>, \<open>showAs\<close>, \<open>location\<close> of the
  extended properties carry the prefix \<open>xp\<close>. An absent \<open>isOncall\<close> is \<open>False\<close>.\<close>

record ExtendedProps =
  xpUserEmail :: string
  xpUserName :: string
  xpShowAs :: ShowAs
  xpLocation :: "string option"
  originalSubject :: string
  isHoliday :: bool
  isPast :: bool
  isOncall :: bool

record FullCalendarEvent =
  fcId :: string
  title :: string
  fcStart :: Date
  fcEnd :: Date
  allDay :: bool
  backgroundColor :: string
  borderColor :: string
  textColor :: string
  classNames :: "string list"
  extendedProps :: ExtendedProps

text \<open>\<open>EventAnchorRect\<close> (and the \<open>DOMRect\<close> it is copied from).\<close>

record EventAnchorRect =
  anchorTop :: real
  anchorLeft :: real
  anchorRight :: real
  anchorBottom :: real
  anchorWidth :: real
  anchorHeight :: real

text \<open>The properties of \<open>CalendarView\<close> that the conversion and the click handlers read.
  \<open>calendars\<close> and \<open>colorOverrides\<close> are objects used as dictionaries: association
  lists in the order of \<open>Object.entries\<close>. \<open>hasOnEventClick\<close> says whether the optional
  callback \<open>onEventClick\<close> was passed.\<close>

record CalendarViewProps =
  calendars :: "(string \<times> CalendarEvent list) list"
  users :: "UserInfo list"
  selectedUsers :: "string list"
  holidays :: "CalendarEvent list"
  showHolidays :: bool
  oncallEvents :: "CalendarEvent list"
  showOncall :: bool
  colorOverrides :: "(string \<times> string) list"
  selectedEventId :: "string option"
  hasOnEventClick :: bool

section \<open>Holiday records (data/holidays.ts)\<close>

text \<open>The display strings of the source that are written in Chinese (the location and the
  user name of a holiday) are given in English here; no property depends on them.\<close>

definition createHoliday :: "string \<Rightarrow> string \<Rightarrow> CalendarEvent" where
  "createHoliday subj date =
     \<lparr> id' = ''holiday-'' @ date,
       subject = subj,
       start = \<lparr> dateTime = date @ ''T00:00:00+08:00'', timeZone = ''Asia/Taipei'' \<rparr>,
       end' = \<lparr> dateTime = date @ ''T23:59:59+08:00'', timeZone = ''Asia/Taipei'' \<rparr>,
       location = Some ''Taiwan'',
       showAs = Free,
       isAllDay = True,
       userEmail = ''holiday@taiwan'',
       userName = ''Taiwan holidays'' \<rparr>"

section \<open>Conversion to calendar events (CalendarView.tsx, \<open>events\<close>)\<close>

text \<open>
  \<open>userColorMap\<close>, \<open>colorOverrides\<close> and \<open>calendars\<close> are plain objects used as dictionaries.
  A plain object answers a key with its own property, and otherwise with what it
  inherits from \<open>Object.prototype\<close>: a function, or for \<open>__proto__\<close> the prototype itself,
  never a string or an array. \<open>Val v\<close> is a value of the declared type, \<open>ProtoValue\<close> one of
  those inherited functions or objects. Using a \<open>ProtoValue\<close> as a string or an array
  throws a \<open>TypeError\<close>.
\<close>

datatype error = TypeError

datatype 'a JsValue = Val 'a | ProtoValue

definition objectPrototypeKeys :: "string list" where
  "objectPrototypeKeys =
     [''constructor'', ''__defineGetter__'', ''__defineSetter__'', ''hasOwnProperty'',
      ''__lookupGetter__'', ''__lookupSetter__'', ''isPrototypeOf'', ''propertyIsEnumerable'',
      ''toString'', ''valueOf'', ''__proto__'', ''toLocaleString'']"

text \<open>The own properties of an object given by its entries.\<close>

definition ownProperties :: "(string \<times> 'a) list \<Rightarrow> (string \<times> 'a JsValue) list" where
  "ownProperties entries = map (\<lambda>entry. (fst entry, Val (snd entry))) entries"

text \<open>\<open>obj[key]\<close>; \<open>None\<close> is \<open>undefined\<close>.\<close>

definition getProperty :: "(string \<times> 'a JsValue) list \<Rightarrow> string \<Rightarrow> 'a JsValue option" where
  "getProperty own key =
     (case map_of own key of
        Some v \<Rightarrow> Some v
      | None \<Rightarrow> if key \<in> set objectPrototypeKeys then Some ProtoValue else None)"

text \<open>\<open>obj[key] = v\<close> on an object created by \<open>{}\<close>. For the key \<open>__proto__\<close> the assignment
  runs the inherited setter, which creates no own property: it ignores a string and,
  given the prototype that the same key reads, leaves the prototype as it is.\<close>

definition setProperty ::
  "(string \<times> 'a JsValue) list \<Rightarrow> string \<Rightarrow> 'a JsValue \<Rightarrow> (string \<times> 'a JsValue) list" where
  "setProperty own key v = (if key = ''__proto__'' then own else (key, v) # own)"

text \<open>\<open>userColorMap\<close>: for each user in turn,
  \<open>map[user.email] = colorOverrides[user.email] ?? user.color\<close>. The result is the list of the
  own properties of \<open>map\<close>, the latest assignment first.\<close>

definition userColorMap ::
  "UserInfo list \<Rightarrow> (string \<times> string) list \<Rightarrow> (string \<times> string JsValue) list" where
  "userColorMap us overrides =
     foldl (\<lambda>m user. setProperty m (email user)
              (case getProperty (ownProperties overrides) (email user) of
                 Some v \<Rightarrow> v
               | None \<Rightarrow> Val (color user)))
       [] us"

text \<open>\<open>userColorMap[key] || fallback\<close>: the fallback replaces \<open>undefined\<close> and \<open>''\<close>; a function
  or an object is truthy and stays.\<close>

definition orDefault :: "string JsValue option \<Rightarrow> string \<Rightarrow> string JsValue" where
  "orDefault x fallback =
     (case x of
        None \<Rightarrow> Val fallback
      | Some (Val s) \<Rightarrow> if s = [] then Val fallback else Val s
      | Some ProtoValue \<Rightarrow> ProtoValue)"

text \<open>The string-valued part of a colour map, as \<open>oncallEvent\<close> reads it.\<close>

definition stringProperties :: "(string \<times> string JsValue) list \<Rightarrow> (string \<rightharpoonup> string)" where
  "stringProperties own key = (case getProperty own key of Some (Val s) \<Rightarrow> Some s | _ \<Rightarrow> None)"

text \<open>\<open>x || fallback\<close> on an optional string: the fallback replaces \<open>undefined\<close> and \<open>''\<close>.\<close>

definition orElse :: "string option \<Rightarrow> string \<Rightarrow> string" where
  "orElse x fallback = (case x of None \<Rightarrow> fallback | Some s \<Rightarrow> if s = [] then fallback else s)"

text \<open>\<open>eventEnd < now\<close>, false when \<open>eventEnd\<close> is \<open>NaN\<close>.\<close>

definition timeBefore :: "Date \<Rightarrow> int \<Rightarrow> bool" where
  "timeBefore t now = (case t of None \<Rightarrow> False | Some v \<Rightarrow> v < now)"

text \<open>\<open>selectedEventId && selectedEventId === eventId\<close>.\<close>

definition isSelectedId :: "string option \<Rightarrow> string \<Rightarrow> bool" where
  "isSelectedId sel eventId = (case sel of None \<Rightarrow> False | Some s \<Rightarrow> s \<noteq> [] \<and> s = eventId)"

text \<open>The three loop bodies. \<open>parse\<close> is the \<open>Date\<close> constructor on a string, \<open>now\<close> is
  \<open>Date.now()\<close>; \<open>email'\<close> and \<open>userName'\<close> are the variables \<open>email\<close> and \<open>userName\<close> of the
  loop over \<open>filteredCalendars\<close>.\<close>

definition personalEvent ::
  "(string \<Rightarrow> Date) \<Rightarrow> int \<Rightarrow> string option \<Rightarrow> string \<Rightarrow> string \<Rightarrow> string \<Rightarrow> CalendarEvent
     \<Rightarrow> FullCalendarEvent" where
  "personalEvent parse now sel email' userName' baseColor event =
     (let eventId = email' @ ''-'' @ id' event;
          eventEnd = parse (dateTime (end' event));
          isPast = timeBefore eventEnd now;
          backgroundColor = (if isPast then lightenColor baseColor 0.88 else baseColor);
          borderColor = (if isPast then lightenColor baseColor 0.92 else baseColor);
          textColor = (if isPast then ''rgba(71, 85, 105, 0.65)''
                       else getAdaptiveTextColor backgroundColor True);
          classNames = [''fc-event-rounded''] @ (if isPast then [''fc-event-past''] else [])
                       @ (if isSelectedId sel eventId then [''fc-event-selected''] else [])
      in \<lparr> fcId = eventId,
           title = subject event,
           fcStart = parse (dateTime (start event)),
           fcEnd = parse (dateTime (end' event)),
           allDay = isAllDay event,
           backgroundColor = backgroundColor,
           borderColor = borderColor,
           textColor = textColor,
           classNames = classNames,
           extendedProps =
             \<lparr> xpUserEmail = email', xpUserName = userName', xpShowAs = showAs event,
               xpLocation = location event, originalSubject = subject event,
               isHoliday = False, isPast = isPast, isOncall = False \<rparr> \<rparr>)"

definition holidayEvent :: "(string \<Rightarrow> Date) \<Rightarrow> int \<Rightarrow> string option \<Rightarrow> CalendarEvent \<Rightarrow> FullCalendarEvent" where
  "holidayEvent parse now sel holiday =
     (let holidayEnd = parse (dateTime (end' holiday));
          isPastHoliday = timeBefore holidayEnd now;
          eventId = ''holiday-'' @ id' holiday;
          baseBg = ''#C8E6C9'';
          baseBorder = ''#81C784'';
          backgroundColor = (if isPastHoliday then lightenColor baseBg 0.9 else baseBg);
          borderColor = (if isPastHoliday then lightenColor baseBorder 0.95 else baseBorder);
          textColor = (if isPastHoliday then ''rgba(30, 64, 45, 0.65)''
                       else getAdaptiveTextColor backgroundColor False);
          classNames = [''fc-event-holiday'', ''fc-event-rounded'']
                       @ (if isPastHoliday then [''fc-event-past''] else [])
                       @ (if isSelectedId sel eventId then [''fc-event-selected''] else [])
      in \<lparr> fcId = eventId,
           title = subject holiday,
           fcStart = parse (dateTime (start holiday)),
           fcEnd = parse (dateTime (end' holiday)),
           allDay = True,
           backgroundColor = backgroundColor,
           borderColor = borderColor,
           textColor = textColor,
           classNames = classNames,
           extendedProps =
             \<lparr> xpUserEmail = ''holiday@taiwan'', xpUserName = ''Taiwan holidays'', xpShowAs = Free,
               xpLocation = None, originalSubject = subject holiday,
               isHoliday = True, isPast = isPastHoliday, isOncall = False \<rparr> \<rparr>)"

definition oncallEvent ::
  "(string \<Rightarrow> Date) \<Rightarrow> int \<Rightarrow> string option \<Rightarrow> (string \<rightharpoonup> string) \<Rightarrow> CalendarEvent
     \<Rightarrow> FullCalendarEvent" where
  "oncallEvent parse now sel colorMap event =
     (let eventEnd = parse (dateTime (end' event));
          isPast = timeBefore eventEnd now;
          baseColor = orElse (colorMap (userEmail event)) ''#4f46e5'';
          backgroundColor = (if isPast then lightenColor baseColor 0.88 else baseColor);
          borderColor = (if isPast then lightenColor baseColor 0.92 else baseColor);
          textColor = (if isPast then ''rgba(71, 85, 105, 0.75)''
                       else getAdaptiveTextColor backgroundColor True);
          eventId = userEmail event @ ''-'' @ id' event;
          classNames = [''fc-event-rounded'', ''fc-event-oncall'']
                       @ (if isPast then [''fc-event-past''] else [])
                       @ (if isSelectedId sel eventId then [''fc-event-selected''] else [])
      in \<lparr> fcId = eventId,
           title = subject event,
           fcStart = parse (dateTime (start event)),
           fcEnd = parse (dateTime (end' event)),
           allDay = True,
           backgroundColor = backgroundColor,
           borderColor = borderColor,
           textColor = textColor,
           classNames = classNames,
           extendedProps =
             \<lparr> xpUserEmail = userEmail event, xpUserName = userName event, xpShowAs = showAs event,
               xpLocation = location event, originalSubject = subject event,
               isHoliday = False, isPast = isPast, isOncall = True \<rparr> \<rparr>)"

text \<open>The three loop bodies above are those for a base colour that is a string. With a
  base colour that is a \<open>ProtoValue\<close> the body throws at its first event: \<open>lightenColor\<close>
  and \<open>getAdaptiveTextColor\<close> pass their guard (the value is truthy) and call
  \<open>hex.replace\<close>, which such a value does not have. A \<open>forEach\<close> that throws ends the
  conversion.\<close>

fun collect :: "('a \<Rightarrow> error + 'b list) \<Rightarrow> 'a list \<Rightarrow> error + 'b list" where
  "collect f [] = Inr []"
| "collect f (x # xs) =
     (case f x of
        Inl e \<Rightarrow> Inl e
      | Inr ys \<Rightarrow> (case collect f xs of Inl e \<Rightarrow> Inl e | Inr zs \<Rightarrow> Inr (ys @ zs)))"

text \<open>\<open>user?.displayName || email.split('@')[0]\<close> and \<open>userColorMap[email] || '#3174ad'\<close>.\<close>

definition ownerName :: "CalendarViewProps \<Rightarrow> string \<Rightarrow> string" where
  "ownerName props key =
     orElse (map_option displayName (find (\<lambda>u. email u = key) (users props)))
       (takeWhile (\<lambda>c. c \<noteq> CHR ''@'') key)"

definition ownerColor :: "CalendarViewProps \<Rightarrow> string \<Rightarrow> string JsValue" where
  "ownerColor props key =
     orDefault (getProperty (userColorMap (users props) (colorOverrides props)) key) ''#3174ad''"

text \<open>The events of one entry of \<open>filteredCalendars\<close>.\<close>

definition userEventsOf ::
  "(string \<Rightarrow> Date) \<Rightarrow> int \<Rightarrow> CalendarViewProps \<Rightarrow> string \<times> CalendarEvent list
     \<Rightarrow> error + FullCalendarEvent list" where
  "userEventsOf parse now props entry =
     (let key = fst entry;
          userEvents = snd entry;
          userName = ownerName props key
      in case ownerColor props key of
           Val baseColor \<Rightarrow>
             Inr (map (personalEvent parse now (selectedEventId props) key userName baseColor) userEvents)
         | ProtoValue \<Rightarrow> if userEvents = [] then Inr [] else Inl TypeError)"

text \<open>One on-call event; its base colour is \<open>userColorMap[event.userEmail] || '#4f46e5'\<close>.\<close>

definition oncallEventOf ::
  "(string \<Rightarrow> Date) \<Rightarrow> int \<Rightarrow> CalendarViewProps \<Rightarrow> CalendarEvent \<Rightarrow> error + FullCalendarEvent list" where
  "oncallEventOf parse now props event =
     (case getProperty (userColorMap (users props) (colorOverrides props)) (userEmail event) of
        Some ProtoValue \<Rightarrow> Inl TypeError
      | _ \<Rightarrow>
          Inr [oncallEvent parse now (selectedEventId props)
                 (stringProperties (userColorMap (users props) (colorOverrides props))) event])"

text \<open>\<open>events\<close>: the list \<open>allEvents\<close>, or the error thrown.\<close>

definition events ::
  "(string \<Rightarrow> Date) \<Rightarrow> int \<Rightarrow> CalendarViewProps \<Rightarrow> error + FullCalendarEvent list" where
  "events parse now props =
     (let filteredCalendars = filter (\<lambda>entry. fst entry \<in> set (selectedUsers props)) (calendars props)
      in case collect (userEventsOf parse now props) filteredCalendars of
           Inl e \<Rightarrow> Inl e
         | Inr personal \<Rightarrow>
             let holidayEvents =
                   (if showHolidays props
                    then map (holidayEvent parse now (selectedEventId props)) (holidays props)
                    else [])
             in case (if showOncall props \<and> length (oncallEvents props) > 0
                      then collect (oncallEventOf parse now props) (oncallEvents props)
                      else Inr []) of
                  Inl e \<Rightarrow> Inl e
                | Inr oncall \<Rightarrow> Inr (personal @ holidayEvents @ oncall))"

section \<open>Event activation (CalendarView.tsx)\<close>

text \<open>The result of a handler is the argument list of the call of \<open>onEventClick\<close> it makes,
  \<open>None\<close> when it makes none, or the error it throws:
  \<open>calendars[userEmail]?.find(...)\<close> throws when the key reads a \<open>ProtoValue\<close>, which has no
  \<open>find\<close>.\<close>

definition openEventDetail ::
  "CalendarViewProps \<Rightarrow> FullCalendarEvent \<Rightarrow> EventAnchorRect option
     \<Rightarrow> error + (CalendarEvent \<times> EventAnchorRect option) option" where
  "openEventDetail props eventApi anchor =
     (if \<not> hasOnEventClick props then Inr None
      else
        let userEmail = xpUserEmail (extendedProps eventApi);
            found =
              (if userEmail \<noteq> []
               then (case getProperty (ownProperties (calendars props)) userEmail of
                       None \<Rightarrow> Inr None
                     | Some (Val es) \<Rightarrow> Inr (find (\<lambda>e. userEmail @ ''-'' @ id' e = fcId eventApi) es)
                     | Some ProtoValue \<Rightarrow> Inl TypeError)
               else Inr None)
        in case found of
             Inl e \<Rightarrow> Inl e
           | Inr originalEvent \<Rightarrow>
               let originalEvent =
                     (if originalEvent = None \<and> isOncall (extendedProps eventApi)
                      then find (\<lambda>event. CalendarEvent.userEmail event @ ''-'' @ id' event = fcId eventApi)
                             (oncallEvents props)
                      else originalEvent)
               in Inr (case originalEvent of None \<Rightarrow> None | Some e \<Rightarrow> Some (e, anchor)))"

definition handleEventClick ::
  "CalendarViewProps \<Rightarrow> FullCalendarEvent \<Rightarrow> EventAnchorRect option
     \<Rightarrow> error + (CalendarEvent \<times> EventAnchorRect option) option" where
  "handleEventClick props event anchor =
     (if isHoliday (extendedProps event) then Inr None else openEventDetail props event anchor)"

text \<open>A click on an entry of the overflow popover: \<open>onEventSelect\<close> is \<open>openEventDetail\<close>.\<close>

definition onEventSelect ::
  "CalendarViewProps \<Rightarrow> FullCalendarEvent \<Rightarrow> EventAnchorRect option
     \<Rightarrow> error + (CalendarEvent \<times> EventAnchorRect option) option" where
  "onEventSelect props eventApi anchor = openEventDetail props eventApi anchor"

section \<open>The \<open>Date\<close> constructor on the strings of the holiday table\<close>

text \<open>
  The ECMAScript date-time string format with seconds and a numeric offset,
  \<open>YYYY-MM-DDTHH:mm:ss\<plusminus>HH:mm\<close>, is the format of every string that \<open>createHoliday\<close>
  builds. \<open>parseDateTime\<close> is the \<open>Date\<close> constructor on such strings; other strings,
  among them the empty one, are the \<open>Invalid Date\<close> here. (Engines accept further
  formats and disagree on days past the end of a month; results about the conversion
  hold for every parser, and this one supplies the concrete inputs.)
\<close>

definition isDecimalDigit :: "char \<Rightarrow> bool" where
  "isDecimalDigit c \<longleftrightarrow> 48 \<le> (of_char c :: nat) \<and> (of_char c :: nat) \<le> 57"

definition decimal :: "string \<Rightarrow> int" where
  "decimal s = int (foldl (\<lambda>acc c. 10 * acc + ((of_char c :: nat) - 48)) 0 s)"

definition InLeapYear :: "int \<Rightarrow> bool" where
  "InLeapYear y \<longleftrightarrow> y mod 4 = 0 \<and> (y mod 100 \<noteq> 0 \<or> y mod 400 = 0)"

definition DaysInMonth :: "int \<Rightarrow> int \<Rightarrow> int" where
  "DaysInMonth y m =
     (if m = 2 then (if InLeapYear y then 29 else 28)
      else if m = 4 \<or> m = 6 \<or> m = 9 \<or> m = 11 then 30 else 31)"

definition DayFromYear :: "int \<Rightarrow> int" where
  "DayFromYear y = 365 * (y - 1970) + (y - 1969) div 4 - (y - 1901) div 100 + (y - 1601) div 400"

text \<open>The day within the year of the first day of month \<open>m\<close> (1 to 12).\<close>

definition DayWithinYear :: "int \<Rightarrow> int \<Rightarrow> int" where
  "DayWithinYear y m =
     [0, 31, 59, 90, 120, 151, 181, 212, 243, 273, 304, 334] ! nat (m - 1)
       + (if InLeapYear y \<and> m > 2 then 1 else 0)"

definition MakeDay :: "int \<Rightarrow> int \<Rightarrow> int \<Rightarrow> int" where
  "MakeDay y m d = DayFromYear y + DayWithinYear y m + d - 1"

definition parseDateTime :: "string \<Rightarrow> Date" where
  "parseDateTime s =
     (if length s = 25 \<and> s ! 4 = CHR ''-'' \<and> s ! 7 = CHR ''-'' \<and> s ! 10 = CHR ''T''
         \<and> s ! 13 = CHR '':'' \<and> s ! 16 = CHR '':'' \<and> (s ! 19 = CHR ''+'' \<or> s ! 19 = CHR ''-'')
         \<and> s ! 22 = CHR '':''
         \<and> list_all isDecimalDigit
              (slice 0 4 s @ slice 5 7 s @ slice 8 10 s @ slice 11 13 s @ slice 14 16 s
                @ slice 17 19 s @ slice 20 22 s @ slice 23 25 s)
      then
        let y = decimal (slice 0 4 s); m = decimal (slice 5 7 s); d = decimal (slice 8 10 s);
            hh = decimal (slice 11 13 s); mm = decimal (slice 14 16 s); ss = decimal (slice 17 19 s);
            oh = decimal (slice 20 22 s); om = decimal (slice 23 25 s);
            sign = (if s ! 19 = CHR ''-'' then - 1 else 1)
        in if 1 \<le> m \<and> m \<le> 12 \<and> 1 \<le> d \<and> d \<le> DaysInMonth y m \<and> hh \<le> 23 \<and> mm \<le> 59 \<and> ss \<le> 59
              \<and> oh \<le> 23 \<and> om \<le> 59
           then Some (MakeDay y m d * 86400000 + hh * 3600000 + mm * 60000 + ss * 1000
                        - sign * (oh * 60 + om) * 60000)
           else None
      else None)"

text \<open>A civil date \<open>YYYY-MM-DD\<close> that exists, and its day number since the epoch.\<close>

definition validCivilDate :: "string \<Rightarrow> bool" where
  "validCivilDate date \<longleftrightarrow>
     length date = 10 \<and> date ! 4 = CHR ''-'' \<and> date ! 7 = CHR ''-''
     \<and> list_all isDecimalDigit (slice 0 4 date @ slice 5 7 date @ slice 8 10 date)
     \<and> 1 \<le> decimal (slice 5 7 date) \<and> decimal (slice 5 7 date) \<le> 12
     \<and> 1 \<le> decimal (slice 8 10 date)
     \<and> decimal (slice 8 10 date) \<le> DaysInMonth (decimal (slice 0 4 date)) (decimal (slice 5 7 date))"

definition civilDay :: "string \<Rightarrow> int" where
  "civilDay date = MakeDay (decimal (slice 0 4 date)) (decimal (slice 5 7 date)) (decimal (slice 8 10 date))"

text \<open>The calendar is created without a \<open>timeZone\<close> option and \<open>renderDayCell\<close> labels a cell
  with \<open>getFullYear\<close>, \<open>getMonth\<close>, \<open>getDate\<close>: day cells are days of the viewer's local
  time. \<open>localDay\<close> is the local day number of an instant for a viewer whose zone is
  \<open>offsetMinutes\<close> east of UTC (\<open>Day(LocalTime(t))\<close>).\<close>

definition localDay :: "int \<Rightarrow> int \<Rightarrow> int" where
  "localDay offsetMinutes t = (t + offsetMinutes * 60000) div 86400000"

section \<open>Popover placement\<close>

text \<open>\<open>computePosition\<close> of \<open>CustomMorePopover\<close>. \<open>popRect\<close> is the width and height of the
  popover's bounding rectangle, \<open>None\<close> while the element is not mounted; the result
  is \<open>(left, top)\<close>. The variable \<open>top\<close> is written \<open>top'\<close>.\<close>

definition computePosition ::
  "EventAnchorRect \<Rightarrow> (real \<times> real) option \<Rightarrow> real \<Rightarrow> real \<Rightarrow> int \<times> int" where
  "computePosition anchorRect popRect innerWidth innerHeight =
     (let viewportPadding = 16; offset = 12 in
      case popRect of
        None \<Rightarrow> (Math_round (anchorLeft anchorRect), Math_round (anchorTop anchorRect))
      | Some (popWidth, popHeight) \<Rightarrow>
          let left = anchorRight anchorRect + offset;
              left = (if left + popWidth + viewportPadding > innerWidth
                      then anchorLeft anchorRect - popWidth - offset else left);
              left = (if left < viewportPadding then viewportPadding else left);
              top' = anchorTop anchorRect;
              top' = (if top' + popHeight + viewportPadding > innerHeight
                      then max viewportPadding (anchorBottom anchorRect - popHeight - offset)
                      else top');
              top' = (if top' < viewportPadding then viewportPadding else top')
          in (Math_round left, Math_round top'))"

text \<open>\<open>positionStyle\<close> of \<open>EventDetailModal\<close>: \<open>{}\<close> without an event, the centred style
  without an anchor, else \<open>{top, left}\<close>. \<open>cardSize\<close> is \<open>(width, height)\<close>.\<close>

datatype PositionStyle = NoStyle | Centered | Anchored real real

definition positionStyle ::
  "bool \<Rightarrow> EventAnchorRect option \<Rightarrow> real \<times> real \<Rightarrow> real \<Rightarrow> real \<Rightarrow> PositionStyle" where
  "positionStyle hasEvent anchorRect cardSize viewportWidth viewportHeight =
     (if \<not> hasEvent then NoStyle
      else case anchorRect of
        None \<Rightarrow> Centered
      | Some a \<Rightarrow>
          let viewportPadding = 16; gap = 12;
              width = (if fst cardSize = 0 then 360 else fst cardSize);
              height = (if snd cardSize = 0 then 320 else snd cardSize);
              roomRight = viewportWidth - anchorRight a - viewportPadding;
              roomLeft = anchorLeft a - viewportPadding;
              canFitRight = (roomRight \<ge> width + gap);
              canFitLeft = (roomLeft \<ge> width + gap);
              left = (if canFitRight \<or> (\<not> canFitLeft \<and> roomRight \<ge> roomLeft)
                      then anchorRight a + gap else anchorLeft a - width - gap);
              left = (if left < viewportPadding then viewportPadding
                      else if left + width + viewportPadding > viewportWidth
                      then viewportWidth - width - viewportPadding else left);
              top' = anchorTop a;
              top' = (if top' + height + viewportPadding > viewportHeight
                      then viewportHeight - height - viewportPadding else top');
              top' = (if top' < viewportPadding then viewportPadding else top')
          in Anchored top' left)"

text \<open>The size that \<open>positionStyle\<close> places: the measured card, or 360 by 320 while the
  measurement is 0.\<close>

definition cardWidth :: "real \<times> real \<Rightarrow> real" where
  "cardWidth cardSize = (if fst cardSize = 0 then 360 else fst cardSize)"

definition cardHeight :: "real \<times> real \<Rightarrow> real" where
  "cardHeight cardSize = (if snd cardSize = 0 then 320 else snd cardSize)"

section \<open>Month rows and the day-frame height\<close>

datatype ViewType = dayGridMonth | timeGridWeek | timeGridDay | listWeek

text \<open>The state of the component that the two handlers write: the React state
  \<open>monthWeekRowCount\<close> and \<open>calendarViewportHeight\<close>, and the CSS variable
  \<open>--calendar-day-frame-min-height\<close> in pixels.\<close>

record ViewState =
  monthWeekRowCount :: int
  calendarViewportHeight :: "real option"
  dayFrameMinHeight :: "int option"

definition initialState :: ViewState where
  "initialState = \<lparr> monthWeekRowCount = 6, calendarViewportHeight = None, dayFrameMinHeight = None \<rparr>"

text \<open>The rows that \<open>handleDatesSet\<close> computes from the time values of \<open>arg.start\<close> and
  \<open>arg.end\<close>. (Its call of \<open>onDateRangeChange\<close> writes nothing of this state and is left out.)\<close>

definition monthRows :: "int \<Rightarrow> int \<Rightarrow> int" where
  "monthRows startTime endTime =
     (let MS_PER_DAY = 24 * 60 * 60 * 1000;
          activeDays = max 1 (Math_round (real_of_int (endTime - startTime) / MS_PER_DAY));
          rows = max 1 (Math_round (real_of_int activeDays / 7))
      in rows)"

definition handleDatesSet :: "ViewType \<Rightarrow> int \<Rightarrow> int \<Rightarrow> ViewState \<Rightarrow> ViewState" where
  "handleDatesSet viewType startTime endTime s =
     (if viewType = dayGridMonth then s\<lparr> monthWeekRowCount := monthRows startTime endTime \<rparr> else s)"

definition clampHeight :: "real \<Rightarrow> real" where
  "clampHeight v = max 48 (min v 120)"

text \<open>\<open>updateMetrics\<close>. Its first argument is the value of \<open>monthWeekRowCount\<close> that the
  closure holds, \<open>hostHeight\<close> is \<open>host.getBoundingClientRect().height\<close>.\<close>

definition updateMetrics :: "int \<Rightarrow> real \<Rightarrow> real option \<Rightarrow> ViewState \<Rightarrow> ViewState" where
  "updateMetrics closureRowCount hostHeight explicitHeight s =
     (let measuredHeight = (case explicitHeight of Some h \<Rightarrow> h | None \<Rightarrow> hostHeight) in
      if measuredHeight = 0 then s
      else
        let chromeOffset = 64;
            rowCount = (if closureRowCount = 0 then 6 else closureRowCount);
            rawHeight = (measuredHeight - chromeOffset) / real_of_int rowCount;
            clampedHeight = clampHeight rawHeight
        in s\<lparr> calendarViewportHeight := Some measuredHeight,
               dayFrameMinHeight := Some (Math_round clampedHeight) \<rparr>)"

text \<open>The effect that defines \<open>updateMetrics\<close> has an empty dependency list: it runs once,
  after the first render, and its closure keeps the \<open>monthWeekRowCount\<close> of that render,
  the initial state. The observer then calls it with each new height.\<close>

datatype UiEvent = Mounted real | DatesSet ViewType int int | Resized real

fun step :: "ViewState \<Rightarrow> UiEvent \<Rightarrow> ViewState" where
  "step s (Mounted hostHeight) = updateMetrics (monthWeekRowCount initialState) hostHeight None s"
| "step s (DatesSet viewType startTime endTime) = handleDatesSet viewType startTime endTime s"
| "step s (Resized h) = updateMetrics (monthWeekRowCount initialState) h (Some h) s"

definition run :: "UiEvent list \<Rightarrow> ViewState" where
  "run evs = foldl step initialState evs"

text \<open>The property \<open>dayMaxEvents\<close> passed to the calendar; \<open>None\<close> is \<open>false\<close>, no limit.\<close>

definition dayMaxEvents :: "ViewType \<Rightarrow> nat option" where
  "dayMaxEvents view = (if view = dayGridMonth then Some 2 else None)"

text \<open>All source records that the conversion visits, in its order.\<close>

definition sourceEvents :: "CalendarViewProps \<Rightarrow> CalendarEvent list" where
  "sourceEvents props =
     concat (map snd (filter (\<lambda>entry. fst entry \<in> set (selectedUsers props)) (calendars props)))
     @ (if showHolidays props then holidays props else [])
     @ (if showOncall props then oncallEvents props else [])"

text \<open>The owner addresses under which the conversion looks up a base colour.\<close>

definition ownerKeys :: "CalendarViewProps \<Rightarrow> string list" where
  "ownerKeys props =
     map fst (filter (\<lambda>entry. fst entry \<in> set (selectedUsers props)) (calendars props))
     @ (if showOncall props then map userEmail (oncallEvents props) else [])"

section \<open>Sample inputs\<close>

definition sampleEvent :: "string \<Rightarrow> string \<Rightarrow> string \<Rightarrow> string \<Rightarrow> CalendarEvent" where
  "sampleEvent ident owner startTime endTime =
     \<lparr> id' = ident,
       subject = ''Meeting'',
       start = \<lparr> dateTime = startTime, timeZone = ''Asia/Taipei'' \<rparr>,
       end' = \<lparr> dateTime = endTime, timeZone = ''Asia/Taipei'' \<rparr>,
       location = None,
       showAs = Busy,
       isAllDay = False,
       userEmail = owner,
       userName = takeWhile (\<lambda>c. c \<noteq> CHR ''@'') owner \<rparr>"

definition sampleProps :: "(string \<times> CalendarEvent list) list \<Rightarrow> CalendarEvent list \<Rightarrow> CalendarViewProps" where
  "sampleProps cals hols =
     \<lparr> calendars = cals, users = [], selectedUsers = map fst cals, holidays = hols,
       showHolidays = True, oncallEvents = [], showOncall = True, colorOverrides = [],
       selectedEventId = None, hasOnEventClick = True \<rparr>"

definition sampleAnchor :: "real \<Rightarrow> real \<Rightarrow> real \<Rightarrow> real \<Rightarrow> EventAnchorRect" where
  "sampleAnchor l t r b =
     \<lparr> anchorTop = t, anchorLeft = l, anchorRight = r, anchorBottom = b,
       anchorWidth = r - l, anchorHeight = b - t \<rparr>"

section \<open>Properties of the primitives\<close>

lemma isHexDigit_not_special:
  assumes "isHexDigit c"
  shows "\<not> isStrWhiteSpace c" "c \<noteq> CHR ''+''" "c \<noteq> CHR ''-''" "c \<noteq> CHR ''x''"
    "c \<noteq> CHR ''X''" "c \<noteq> CHR ''#''"
  using assms
  by (auto simp: isHexDigit_def hexDigitValue_def isStrWhiteSpace_def Let_def split: if_splits)

lemma replaceFirst_absent: "p \<notin> set s \<Longrightarrow> replaceFirst p rep s = s"
  by (induction s) auto

lemma hex_digits_no_hash: "list_all isHexDigit ds \<Longrightarrow> CHR ''#'' \<notin> set ds"
  using isHexDigit_not_special(6) by (auto simp: list_all_iff)

lemma normalized_wellFormed:
  assumes "wellFormedHex hex"
  shows "replaceFirst CHR ''#'' [] hex = hexDigitsOf hex"
proof (cases "hex \<noteq> [] \<and> hd hex = CHR ''#''")
  case True
  then obtain cs where "hex = CHR ''#'' # cs" by (cases hex) auto
  then show ?thesis by (simp add: hexDigitsOf_def)
next
  case False
  then have "hexDigitsOf hex = hex" by (auto simp: hexDigitsOf_def)
  with assms show ?thesis
    by (simp add: wellFormedHex_def replaceFirst_absent hex_digits_no_hash)
qed

lemma parseInt16_hex_digits:
  assumes "list_all isHexDigit Z" "Z \<noteq> []"
  shows "parseInt16 Z = Some (int (hexNumber Z))"
proof -
  obtain c cs where Z: "Z = c # cs" using assms(2) by (cases Z) auto
  have c: "isHexDigit c" and cs: "list_all isHexDigit cs" using assms(1) Z by auto
  have dw: "dropWhile isStrWhiteSpace Z = Z"
    using c isHexDigit_not_special(1) by (simp add: Z)
  have nox: "take 2 Z \<noteq> ''0x''" "take 2 Z \<noteq> ''0X''"
    using cs isHexDigit_not_special(4,5) by (cases cs; auto simp: Z)+
  have tw: "takeWhile isHexDigit Z = Z"
    using assms(1) by (simp add: list_all_iff)
  have hdZ: "hd Z \<noteq> CHR ''-''" "hd Z \<noteq> CHR ''+''"
    using isHexDigit_not_special(2,3)[OF c] by (simp_all add: Z)
  show ?thesis
    unfolding parseInt16_def Let_def dw
    using hdZ nox assms(2) by (simp add: tw)
qed

lemma hexDigitValue_bound: "hexDigitValue c = Some d \<Longrightarrow> d < 16"
  by (auto simp: hexDigitValue_def Let_def split: if_splits)

lemma hv_bound: "hv c < 16"
  by (auto simp: hv_def dest: hexDigitValue_bound split: option.splits)


lemma hexNumber_six:
  "hexNumber [a, b, c, d, e, f] =
     65536 * (16 * hv a + hv b) + 256 * (16 * hv c + hv d) + (16 * hv e + hv f)"
  by (simp add: hexNumber_def hv_def)

lemma ToInt32_small: "0 \<le> n \<Longrightarrow> n < 2 ^ 31 \<Longrightarrow> ToInt32 n = n"
  unfolding ToInt32_def by (rule signed_take_bit_int_eq_self) auto

lemma and_255: "(n::int) AND 255 = n mod 256"
proof -
  have "n AND mask 8 = take_bit 8 n" by (simp add: take_bit_eq_mask)
  then show ?thesis by (simp add: take_bit_eq_mod mask_eq_exp_minus_1)
qed

lemma channels_of_num:
  fixes R G B :: nat and num :: int
  assumes "R < 256" "G < 256" "B < 256"
    and num: "num = int (65536 * R + 256 * G + B)"
  shows "ToInt32 (drop_bit 16 (ToInt32 num)) AND 255 = int R"
    and "ToInt32 (drop_bit 8 (ToInt32 num)) AND 255 = int G"
    and "ToInt32 num AND 255 = int B"
proof -
  have n0: "0 \<le> num" "num < 2 ^ 31" using assms by auto
  have t: "ToInt32 num = num" using n0 by (rule ToInt32_small)
  have d16: "drop_bit 16 num = int R" using assms by (simp add: drop_bit_eq_div)
  have d8: "drop_bit 8 num = int (256 * R + G)" using assms by (simp add: drop_bit_eq_div)
  have m8: "int (256 * R + G) mod 256 = int G" using assms(2) by simp
  have "num = int B + 256 * (256 * int R + int G)" by (simp add: num)
  then have "num mod 256 = int B mod 256" by (simp only: mod_mult_self2)
  then have m0: "num mod 256 = int B" using assms(3) by simp
  have tR: "ToInt32 (int R) = int R" using assms(1) by (intro ToInt32_small) auto
  have tG: "ToInt32 (int (256 * R + G)) = int (256 * R + G)"
    using assms(1,2) by (intro ToInt32_small) auto
  show "ToInt32 (drop_bit 16 (ToInt32 num)) AND 255 = int R"
    unfolding t d16 tR and_255 using assms(1) by simp
  show "ToInt32 (drop_bit 8 (ToInt32 num)) AND 255 = int G"
    unfolding t d8 tG and_255 by (rule m8)
  show "ToInt32 num AND 255 = int B"
    unfolding t and_255 by (rule m0)
qed

lemma hexDigitChar_code:
  assumes "d < 16"
  shows "(of_char (hexDigitChar d) :: nat) = (if d < 10 then 48 + d else 87 + d)"
proof -
  from assms have "d \<in> {0,1,2,3,4,5,6,7,8,9,10,11,12,13,14,15}"
    by (simp; arith)
  then show ?thesis
    by (auto simp: hexDigitChar_def)
qed

lemma hexDigitChar_hv:
  assumes "isHexDigit c"
  shows "hexDigitChar (hv c) = lowerHexChar c"
proof -
  have "(of_char (hexDigitChar (hv c)) :: nat) = of_char (lowerHexChar c)"
    unfolding hexDigitChar_code[OF hv_bound] using assms
    by (auto simp: isHexDigit_def hexDigitValue_def hv_def lowerHexChar_def Let_def split: if_splits)
  then show ?thesis by (simp only: of_char_eq_iff)
qed

lemma toString16_nat: "toString16 (int n) = natToString16 n"
  by (simp add: toString16_def del: natToString16.simps)

lemma two_digits:
  assumes "a < 16" "b < 16"
  shows "padStart 2 CHR ''0'' (toString16 (int (16 * a + b))) = [hexDigitChar a, hexDigitChar b]"
proof (cases "a = 0")
  case True
  then show ?thesis using assms unfolding toString16_nat by (simp add: padStart_def hexDigitChar_def)
next
  case False
  then have "\<not> 16 * a + b < 16" by simp
  moreover have "(16 * a + b) div 16 = a" "(16 * a + b) mod 16 = b" using assms by auto
  ultimately have "natToString16 (16 * a + b) = [hexDigitChar a, hexDigitChar b]"
    using assms by (subst natToString16.simps) (simp del: natToString16.simps, subst natToString16.simps, simp del: natToString16.simps)
  then show ?thesis unfolding toString16_nat by (simp add: padStart_def del: natToString16.simps)
qed

lemma Math_round_int: "Math_round (real_of_int n) = n"
  by (simp add: Math_round_def)

lemma mixChannel_0: "c \<le> 255 \<Longrightarrow> mixChannel 0 c = c"
  by (simp add: mixChannel_def Math_round_int)

lemma mixChannel_1: "mixChannel 1 c = 255"
  using Math_round_int[of 255] by (simp add: mixChannel_def)

lemma mixChannel_range:
  assumes "0 \<le> ratio" "ratio \<le> 1" "0 \<le> c" "c \<le> 255"
  shows "0 \<le> mixChannel ratio c \<and> mixChannel ratio c \<le> 255"
proof -
  have "0 \<le> (255 - real_of_int c) * ratio" using assms by simp
  then have "0 \<le> real_of_int c + (255 - real_of_int c) * ratio + 1 / 2" using assms(3) by simp
  then have "0 \<le> Math_round (real_of_int c + (255 - real_of_int c) * ratio)"
    unfolding Math_round_def by simp
  then show ?thesis by (simp add: mixChannel_def)
qed

lemma length_six: "length xs = 6 \<Longrightarrow> \<exists>a b c d e f. xs = [a, b, c, d, e, f]"
  by (auto simp: eval_nat_numeral length_Suc_conv)

lemma wellFormedHex_digits:
  assumes "wellFormedHex hex"
  obtains a b c d e f where "hexDigitsOf hex = [a, b, c, d, e, f]"
    "isHexDigit a" "isHexDigit b" "isHexDigit c" "isHexDigit d" "isHexDigit e" "isHexDigit f"
proof -
  from assms have "length (hexDigitsOf hex) = 6" by (simp add: wellFormedHex_def)
  then obtain a b c d e f where ds: "hexDigitsOf hex = [a, b, c, d, e, f]"
    using length_six by blast
  moreover from assms ds have "isHexDigit a" "isHexDigit b" "isHexDigit c" "isHexDigit d"
    "isHexDigit e" "isHexDigit f"
    by (simp_all add: wellFormedHex_def)
  ultimately show thesis using that by blast
qed

lemma wellFormedHex_nonempty: "wellFormedHex hex \<Longrightarrow> hex \<noteq> []"
  by (auto simp: wellFormedHex_def hexDigitsOf_def)



















lemma wellFormedHex_google_blue: "wellFormedHex ''#1a73e8''"
  by (simp add: wellFormedHex_def hexDigitsOf_def isHexDigit_def hexDigitValue_def)



lemma lightenChannels_wellFormed:
  assumes "wellFormedHex hex"
  shows "lightenChannels hex ratio =
     Some [mixChannel ratio (int (channelAt 0 hex)), mixChannel ratio (int (channelAt 2 hex)),
           mixChannel ratio (int (channelAt 4 hex))]"
proof -
  from assms obtain a b c d e f where ds: "hexDigitsOf hex = [a, b, c, d, e, f]"
    and h: "isHexDigit a" "isHexDigit b" "isHexDigit c" "isHexDigit d" "isHexDigit e" "isHexDigit f"
    by (rule wellFormedHex_digits)
  define R G B where "R = 16 * hv a + hv b" and "G = 16 * hv c + hv d" and "B = 16 * hv e + hv f"
  have bounds: "R < 256" "G < 256" "B < 256"
    using hv_bound[of a] hv_bound[of b] hv_bound[of c] hv_bound[of d] hv_bound[of e] hv_bound[of f]
    by (simp_all add: R_def G_def B_def)
  define num where "num = int (65536 * R + 256 * G + B)"
  have p: "parseInt16 (hexDigitsOf hex) = Some num"
    unfolding ds num_def R_def G_def B_def hexNumber_six[symmetric]
    using h by (intro parseInt16_hex_digits) simp_all
  have ch: "channelAt 0 hex = R" "channelAt 2 hex = G" "channelAt 4 hex = B"
    by (simp_all add: channelAt_def ds R_def G_def B_def eval_nat_numeral)
  note cn = channels_of_num[OF bounds num_def]
  have len: "length (hexDigitsOf hex) = 6" by (simp add: ds)
  show ?thesis
    unfolding lightenChannels_def Let_def normalized_wellFormed[OF assms] p ch
    using wellFormedHex_nonempty[OF assms] len by (simp add: cn)
qed

lemma channelAt_bound: "channelAt i hex < 256"
  using hv_bound[of "hexDigitsOf hex ! i"] hv_bound[of "hexDigitsOf hex ! Suc i"]
  by (simp add: channelAt_def)

lemma channel_string:
  assumes "wellFormedHex hex" "i = 0 \<or> i = 2 \<or> i = 4"
  shows "padStart 2 CHR ''0'' (toString16 (int (channelAt i hex))) =
     [lowerHexChar (hexDigitsOf hex ! i), lowerHexChar (hexDigitsOf hex ! Suc i)]"
proof -
  from assms(1) have "list_all isHexDigit (hexDigitsOf hex)" "length (hexDigitsOf hex) = 6"
    by (simp_all add: wellFormedHex_def)
  with assms(2) have "isHexDigit (hexDigitsOf hex ! i)" "isHexDigit (hexDigitsOf hex ! Suc i)"
    by (auto simp: list_all_length)
  then show ?thesis
    unfolding channelAt_def by (simp add: two_digits hv_bound hexDigitChar_hv del: of_nat_add of_nat_mult)
qed

lemma lightenColor_ratio_0:
  assumes "wellFormedHex hex"
  shows "lightenColor hex 0 = canonicalHex hex"
proof -
  from assms obtain a b c d e f where ds: "hexDigitsOf hex = [a, b, c, d, e, f]"
    by (rule wellFormedHex_digits)
  have le: "int (channelAt 0 hex) \<le> 255" "int (channelAt 2 hex) \<le> 255" "int (channelAt 4 hex) \<le> 255"
    using channelAt_bound[of 0 hex] channelAt_bound[of 2 hex] channelAt_bound[of 4 hex] by simp_all
  have m: "mixChannel 0 (int (channelAt 0 hex)) = int (channelAt 0 hex)"
    "mixChannel 0 (int (channelAt 2 hex)) = int (channelAt 2 hex)"
    "mixChannel 0 (int (channelAt 4 hex)) = int (channelAt 4 hex)"
    using le by (simp_all only: mixChannel_0)
  show ?thesis
    unfolding lightenColor_def lightenChannels_wellFormed[OF assms] canonicalHex_def m
    by (simp add: channel_string[OF assms] ds)
qed

lemma ff_string: "padStart 2 CHR ''0'' (toString16 255) = ''ff''"
  by (simp add: padStart_def toString16_def hexDigitChar_def)

lemma lightenColor_ratio_1:
  assumes "wellFormedHex hex"
  shows "lightenColor hex 1 = ''#ffffff''"
  unfolding lightenColor_def lightenChannels_wellFormed[OF assms]
  by (simp add: mixChannel_1 ff_string)

lemma lightenChannels_range:
  assumes "wellFormedHex hex" "0 \<le> ratio" "ratio \<le> 1"
  shows "\<exists>lr lg lb. lightenChannels hex ratio = Some [lr, lg, lb] \<and>
     0 \<le> lr \<and> lr \<le> 255 \<and> 0 \<le> lg \<and> lg \<le> 255 \<and> 0 \<le> lb \<and> lb \<le> 255"
proof -
  have le: "int (channelAt 0 hex) \<le> 255" "int (channelAt 2 hex) \<le> 255" "int (channelAt 4 hex) \<le> 255"
    using channelAt_bound[of 0 hex] channelAt_bound[of 2 hex] channelAt_bound[of 4 hex] by simp_all
  show ?thesis
    unfolding lightenChannels_wellFormed[OF assms(1)]
    using mixChannel_range[OF assms(2,3) _ le(1)] mixChannel_range[OF assms(2,3) _ le(2)]
      mixChannel_range[OF assms(2,3) _ le(3)] by simp
qed

lemma lightenColor_guard:
  assumes "hex = [] \<or> length (replaceFirst CHR ''#'' [] hex) \<noteq> 6
     \<or> parseInt16 (replaceFirst CHR ''#'' [] hex) = None"
  shows "lightenColor hex ratio = hex"
  using assms by (auto simp: lightenColor_def lightenChannels_def Let_def)

lemma parseInt16_no_digit:
  assumes "N \<noteq> []" "\<not> isHexDigit (hd N)" "\<not> isStrWhiteSpace (hd N)" "hd N \<noteq> CHR ''+''" "hd N \<noteq> CHR ''-''"
  shows "parseInt16 N = None"
proof -
  obtain c cs where N: "N = c # cs" using assms(1) by (cases N) auto
  have z: "isHexDigit CHR ''0''" by (simp add: isHexDigit_def hexDigitValue_def)
  have c0: "c \<noteq> CHR ''0''" using assms(2) z by (auto simp: N)
  show ?thesis
    using assms c0 by (simp add: parseInt16_def N)
qed

lemma char_of_eq: "(char_of (n::nat) = c) = (n mod 256 = of_char c)"
  by (metis of_char_eq_iff of_char_of)

lemma parseInt16_digit_prefix: "parseInt16 ''12345g'' = Some 74565"
  by (simp add: parseInt16_def isStrWhiteSpace_def isHexDigit_def hexDigitValue_def hexNumber_def)

section \<open>Properties of the conversion and of event activation\<close>

lemma personalEvent_sel [simp]:
  "fcId (personalEvent parse now sel e u b ev) = e @ ''-'' @ id' ev"
  "fcStart (personalEvent parse now sel e u b ev) = parse (dateTime (start ev))"
  "fcEnd (personalEvent parse now sel e u b ev) = parse (dateTime (end' ev))"
  "isHoliday (extendedProps (personalEvent parse now sel e u b ev)) = False"
  by (simp_all add: personalEvent_def Let_def)

lemma holidayEvent_sel [simp]:
  "fcId (holidayEvent parse now sel h) = ''holiday-'' @ id' h"
  "fcStart (holidayEvent parse now sel h) = parse (dateTime (start h))"
  "fcEnd (holidayEvent parse now sel h) = parse (dateTime (end' h))"
  "isHoliday (extendedProps (holidayEvent parse now sel h)) = True"
  "isOncall (extendedProps (holidayEvent parse now sel h)) = False"
  "xpUserEmail (extendedProps (holidayEvent parse now sel h)) = ''holiday@taiwan''"
  by (simp_all add: holidayEvent_def Let_def)

lemma oncallEvent_sel [simp]:
  "fcId (oncallEvent parse now sel m ev) = userEmail ev @ ''-'' @ id' ev"
  "fcStart (oncallEvent parse now sel m ev) = parse (dateTime (start ev))"
  "fcEnd (oncallEvent parse now sel m ev) = parse (dateTime (end' ev))"
  "isHoliday (extendedProps (oncallEvent parse now sel m ev)) = False"
  by (simp_all add: oncallEvent_def Let_def)

lemma find_False: "find (\<lambda>e. False) es = None"
  by (induction es) auto

lemma map_of_ownProperties:
  "map_of (ownProperties entries) key = map_option Val (map_of entries key)"
  by (induction entries) (auto simp: ownProperties_def)

lemma holiday_owner_not_inherited: "''holiday@taiwan'' \<notin> set objectPrototypeKeys"
  by (simp add: objectPrototypeKeys_def)

lemma holiday_key_differs: "''holiday@taiwan'' @ ''-'' @ x \<noteq> ''holiday-'' @ y"
  by simp

lemma openEventDetail_holiday:
  "openEventDetail props (holidayEvent parse now sel h) anchor = Inr None"
proof (cases "map_of (calendars props) ''holiday@taiwan''")
  case None
  then have "getProperty (ownProperties (calendars props)) ''holiday@taiwan'' = None"
    using holiday_owner_not_inherited by (simp add: getProperty_def map_of_ownProperties)
  then show ?thesis by (simp add: openEventDetail_def Let_def)
next
  case (Some es)
  then have "getProperty (ownProperties (calendars props)) ''holiday@taiwan'' = Some (Val es)"
    by (simp add: getProperty_def map_of_ownProperties)
  then show ?thesis by (simp add: openEventDetail_def Let_def find_False)
qed

lemma collect_Inr_mem:
  "collect f xs = Inr ys \<Longrightarrow> y \<in> set ys \<Longrightarrow> \<exists>x \<in> set xs. \<exists>zs. f x = Inr zs \<and> y \<in> set zs"
proof (induction xs arbitrary: ys)
  case Nil
  then show ?case by simp
next
  case (Cons x xs)
  from Cons.prems(1) obtain zs ws where f: "f x = Inr zs" and c: "collect f xs = Inr ws"
    and ys: "ys = zs @ ws"
    by (auto split: sum.splits)
  from Cons.prems(2) ys have "y \<in> set zs \<or> y \<in> set ws" by simp
  then show ?case
  proof
    assume "y \<in> set zs"
    with f show ?thesis by auto
  next
    assume "y \<in> set ws"
    from Cons.IH[OF c this] show ?thesis by auto
  qed
qed

lemma collect_all_Inr:
  "(\<And>x. x \<in> set xs \<Longrightarrow> f x = Inr (g x)) \<Longrightarrow> collect f xs = Inr (concat (map g xs))"
  by (induction xs) auto

lemma userEventsOf_not_holiday:
  assumes "userEventsOf parse now props entry = Inr zs" "ev \<in> set zs"
  shows "\<not> isHoliday (extendedProps ev)"
  using assms by (auto simp: userEventsOf_def Let_def split: JsValue.splits if_splits)

lemma oncallEventOf_not_holiday:
  assumes "oncallEventOf parse now props event = Inr zs" "ev \<in> set zs"
  shows "\<not> isHoliday (extendedProps ev)"
  using assms by (auto simp: oncallEventOf_def split: option.splits JsValue.splits)

lemma events_holiday_origin:
  assumes "events parse now props = Inr evs" "ev \<in> set evs" "isHoliday (extendedProps ev)"
  shows "\<exists>h. ev = holidayEvent parse now (selectedEventId props) h"
proof -
  let ?cals = "filter (\<lambda>entry. fst entry \<in> set (selectedUsers props)) (calendars props)"
  let ?onc = "if showOncall props \<and> length (oncallEvents props) > 0
              then collect (oncallEventOf parse now props) (oncallEvents props) else Inr []"
  from assms(1) obtain personal oncall where
    p: "collect (userEventsOf parse now props) ?cals = Inr personal" and
    oc: "?onc = Inr oncall" and
    evs: "evs = personal
            @ (if showHolidays props
               then map (holidayEvent parse now (selectedEventId props)) (holidays props) else [])
            @ oncall"
    unfolding events_def Let_def by (auto split: sum.splits)
  have np: "ev \<notin> set personal"
  proof
    assume "ev \<in> set personal"
    from collect_Inr_mem[OF p this] show False
      using userEventsOf_not_holiday assms(3) by blast
  qed
  have no: "ev \<notin> set oncall"
  proof
    assume m: "ev \<in> set oncall"
    then have "oncall \<noteq> []" by auto
    with oc have c: "collect (oncallEventOf parse now props) (oncallEvents props) = Inr oncall"
      by (auto split: if_splits)
    from collect_Inr_mem[OF c m] show False
      using oncallEventOf_not_holiday assms(3) by blast
  qed
  from assms(2) evs np no show ?thesis by (auto split: if_splits)
qed

lemma split_at_dash:
  assumes "(e @ ''-'') @ us = ''holiday-''"
  shows "e = ''holiday''"
  using assms by (auto simp: append_eq_Cons_conv)

lemma id_no_collision:
  assumes "\<not> prefix ''holiday-'' (e @ ''-'')"
  shows "e @ ''-'' @ x \<noteq> ''holiday-'' @ y"
proof
  assume "e @ ''-'' @ x = ''holiday-'' @ y"
  then have "(e @ ''-'') @ x = ''holiday-'' @ y" by simp
  then consider us where "e @ ''-'' = ''holiday-'' @ us" | us where "(e @ ''-'') @ us = ''holiday-''"
    unfolding append_eq_append_conv2 by blast
  then show False
  proof cases
    case 1
    then show ?thesis using assms by (simp add: prefix_def)
  next
    case 2
    then have "e = ''holiday''" by (rule split_at_dash)
    then show ?thesis using assms by simp
  qed
qed

lemma holidayEvent_title [simp]: "title (holidayEvent parse now sel h) = subject h"
  by (simp add: holidayEvent_def Let_def)

lemma oncallEvent_title [simp]: "title (oncallEvent parse now sel m ev) = subject ev"
  by (simp add: oncallEvent_def Let_def)

lemma personalEvent_title [simp]: "title (personalEvent parse now sel e u b ev) = subject ev"
  by (simp add: personalEvent_def Let_def)

text \<open>Only a key that \<open>Object.prototype\<close> defines reads a \<open>ProtoValue\<close> from the colour map.\<close>

lemma colour_fold_invariant:
  assumes "\<forall>k v. (k, v) \<in> set m \<longrightarrow> v = ProtoValue \<longrightarrow> k \<in> set objectPrototypeKeys"
  shows "\<forall>k v. (k, v) \<in> set (foldl (\<lambda>m user. setProperty m (email user)
              (case getProperty (ownProperties overrides) (email user) of
                 Some v \<Rightarrow> v
               | None \<Rightarrow> Val (color user))) m us)
           \<longrightarrow> v = ProtoValue \<longrightarrow> k \<in> set objectPrototypeKeys"
  using assms
proof (induction us arbitrary: m)
  case Nil
  then show ?case by simp
next
  case (Cons u us)
  let ?v = "case getProperty (ownProperties overrides) (email u) of
              Some v \<Rightarrow> v | None \<Rightarrow> Val (color u)"
  have v: "?v = ProtoValue \<longrightarrow> email u \<in> set objectPrototypeKeys"
    by (auto simp: getProperty_def map_of_ownProperties split: option.splits if_splits)
  have "\<forall>k w. (k, w) \<in> set (setProperty m (email u) ?v) \<longrightarrow> w = ProtoValue
          \<longrightarrow> k \<in> set objectPrototypeKeys"
    using Cons.prems v by (auto simp: setProperty_def)
  from Cons.IH[OF this] show ?case by simp
qed

lemma userColorMap_own_key:
  assumes "key \<notin> set objectPrototypeKeys"
  shows "getProperty (userColorMap us overrides) key \<noteq> Some ProtoValue"
proof
  assume g: "getProperty (userColorMap us overrides) key = Some ProtoValue"
  with assms have "map_of (userColorMap us overrides) key = Some ProtoValue"
    by (auto simp: getProperty_def split: option.splits)
  then have "(key, ProtoValue) \<in> set (userColorMap us overrides)"
    by (rule map_of_SomeD)
  moreover have "\<forall>k v. (k, v) \<in> set (userColorMap us overrides) \<longrightarrow> v = ProtoValue
                  \<longrightarrow> k \<in> set objectPrototypeKeys"
    unfolding userColorMap_def by (rule colour_fold_invariant) simp
  ultimately show False using assms by blast
qed

lemma ownerColor_own_key:
  assumes "key \<notin> set objectPrototypeKeys"
  shows "\<exists>c. ownerColor props key = Val c"
  using userColorMap_own_key[OF assms, of "users props" "colorOverrides props"]
  by (auto simp: ownerColor_def orDefault_def split: option.splits JsValue.splits)

text \<open>The result of the conversion when no owner key is a name that \<open>Object.prototype\<close>
  defines: every base colour is a string, \<open>baseColor key\<close> for the key of a calendar.\<close>

lemma events_own_keys:
  assumes "\<forall>k \<in> set (ownerKeys props). k \<notin> set objectPrototypeKeys"
  shows "\<exists>baseColor. events parse now props =
     Inr (concat (map (\<lambda>entry. map (personalEvent parse now (selectedEventId props) (fst entry)
                                    (ownerName props (fst entry)) (baseColor (fst entry))) (snd entry))
            (filter (\<lambda>entry. fst entry \<in> set (selectedUsers props)) (calendars props)))
          @ (if showHolidays props
             then map (holidayEvent parse now (selectedEventId props)) (holidays props) else [])
          @ (if showOncall props
             then map (oncallEvent parse now (selectedEventId props)
                         (stringProperties (userColorMap (users props) (colorOverrides props))))
                    (oncallEvents props)
             else []))"
proof -
  let ?cals = "filter (\<lambda>entry. fst entry \<in> set (selectedUsers props)) (calendars props)"
  define baseColor where
    "baseColor key = (case ownerColor props key of Val c \<Rightarrow> c | ProtoValue \<Rightarrow> [])" for key
  let ?g = "\<lambda>entry. map (personalEvent parse now (selectedEventId props) (fst entry)
                          (ownerName props (fst entry)) (baseColor (fst entry))) (snd entry)"
  have "userEventsOf parse now props entry = Inr (?g entry)" if "entry \<in> set ?cals" for entry
  proof -
    from that have "fst entry \<in> set (ownerKeys props)" by (auto simp: ownerKeys_def)
    with assms have "fst entry \<notin> set objectPrototypeKeys" by blast
    from ownerColor_own_key[OF this, of props] obtain c where "ownerColor props (fst entry) = Val c"
      by blast
    then show ?thesis by (simp add: userEventsOf_def Let_def baseColor_def)
  qed
  then have p: "collect (userEventsOf parse now props) ?cals = Inr (concat (map ?g ?cals))"
    by (rule collect_all_Inr)
  let ?h = "\<lambda>event. [oncallEvent parse now (selectedEventId props)
                        (stringProperties (userColorMap (users props) (colorOverrides props))) event]"
  have oc: "(if showOncall props \<and> length (oncallEvents props) > 0
             then collect (oncallEventOf parse now props) (oncallEvents props) else Inr [])
            = Inr (if showOncall props then concat (map ?h (oncallEvents props)) else [])"
  proof (cases "showOncall props")
    case False
    then show ?thesis by simp
  next
    case True
    have "oncallEventOf parse now props event = Inr (?h event)"
      if "event \<in> set (oncallEvents props)" for event
    proof -
      from that True have "userEmail event \<in> set (ownerKeys props)" by (simp add: ownerKeys_def)
      with assms have "userEmail event \<notin> set objectPrototypeKeys" by blast
      from userColorMap_own_key[OF this, of "users props" "colorOverrides props"]
      show ?thesis by (auto simp: oncallEventOf_def split: option.splits JsValue.splits)
    qed
    then have "collect (oncallEventOf parse now props) (oncallEvents props)
               = Inr (concat (map ?h (oncallEvents props)))"
      by (rule collect_all_Inr)
    with True show ?thesis by (cases "oncallEvents props") auto
  qed
  have "events parse now props =
     Inr (concat (map ?g ?cals)
          @ (if showHolidays props
             then map (holidayEvent parse now (selectedEventId props)) (holidays props) else [])
          @ (if showOncall props then concat (map ?h (oncallEvents props)) else []))"
    unfolding events_def Let_def p oc by simp
  moreover have "concat (map ?h (oncallEvents props))
     = map (oncallEvent parse now (selectedEventId props)
              (stringProperties (userColorMap (users props) (colorOverrides props))))
         (oncallEvents props)"
    by (induction "oncallEvents props") (simp_all add: concat_map_singleton)
  ultimately show ?thesis by auto
qed

lemma events_fields:
  assumes "\<forall>k \<in> set (ownerKeys props). k \<notin> set objectPrototypeKeys"
  shows "\<exists>evs. events parse now props = Inr evs
     \<and> map fcStart evs = map (\<lambda>e. parse (dateTime (start e))) (sourceEvents props)
     \<and> map fcEnd evs = map (\<lambda>e. parse (dateTime (end' e))) (sourceEvents props)
     \<and> map title evs = map subject (sourceEvents props)"
proof -
  from events_own_keys[OF assms, of parse now] obtain baseColor where
    e: "events parse now props =
     Inr (concat (map (\<lambda>entry. map (personalEvent parse now (selectedEventId props) (fst entry)
                                    (ownerName props (fst entry)) (baseColor (fst entry))) (snd entry))
            (filter (\<lambda>entry. fst entry \<in> set (selectedUsers props)) (calendars props)))
          @ (if showHolidays props
             then map (holidayEvent parse now (selectedEventId props)) (holidays props) else [])
          @ (if showOncall props
             then map (oncallEvent parse now (selectedEventId props)
                         (stringProperties (userColorMap (users props) (colorOverrides props))))
                    (oncallEvents props)
             else []))"
    by blast
  show ?thesis
    unfolding e sourceEvents_def
    by (simp add: map_concat comp_def)
qed

lemma sampleProps_sel:
  "calendars (sampleProps cals hols) = cals"
  "users (sampleProps cals hols) = []"
  "selectedUsers (sampleProps cals hols) = map fst cals"
  "holidays (sampleProps cals hols) = hols"
  "showHolidays (sampleProps cals hols) = True"
  "oncallEvents (sampleProps cals hols) = []"
  "showOncall (sampleProps cals hols) = True"
  "colorOverrides (sampleProps cals hols) = []"
  "selectedEventId (sampleProps cals hols) = None"
  "hasOnEventClick (sampleProps cals hols) = True"
  by (simp_all add: sampleProps_def)

lemma sample_colour: "ownerColor (sampleProps cals hols) ''amy@fas.com'' = Val ''#3174ad''"
  by (simp add: ownerColor_def orDefault_def getProperty_def userColorMap_def sampleProps_def
      objectPrototypeKeys_def)

lemma sample_name: "ownerName (sampleProps cals hols) ''amy@fas.com'' = ''amy''"
  by (simp add: ownerName_def orElse_def sampleProps_def)

text \<open>An owner key that \<open>Object.prototype\<close> defines: the conversion throws.\<close>

lemma events_inherited_owner_throws:
  "events parseDateTime 1700000000000
     (sampleProps [(''constructor'', [sampleEvent ''1'' ''constructor'' [] []])] []) = Inl TypeError"
  by (simp add: events_def userEventsOf_def Let_def ownerColor_def orDefault_def getProperty_def
      userColorMap_def sampleProps_sel objectPrototypeKeys_def)

lemma parse_empty: "parseDateTime [] = None"
  by (simp add: parseDateTime_def)

lemma decimal_digits:
  "decimal [a, b] = int (10 * ((of_char a :: nat) - 48) + ((of_char b :: nat) - 48))"
  "decimal [a, b, c, d] = int (10 * (10 * (10 * ((of_char a :: nat) - 48) + ((of_char b :: nat) - 48))
      + ((of_char c :: nat) - 48)) + ((of_char d :: nat) - 48))"
  by (simp_all add: decimal_def)

lemma parse_2024: "parseDateTime ''2024-01-01T00:00:00+08:00'' = Some 1704038400000"
  by (simp add: parseDateTime_def slice_def isDecimalDigit_def decimal_digits DaysInMonth_def
      MakeDay_def DayFromYear_def DayWithinYear_def InLeapYear_def)

section \<open>Properties of the holiday instants\<close>

lemma length_ten:
  assumes "length xs = 10"
  obtains a b c d e f g h i j where "xs = [a, b, c, d, e, f, g, h, i, j]"
  using assms by (auto simp: eval_nat_numeral length_Suc_conv)

lemma decimal_consts:
  "decimal ''00'' = 0" "decimal ''08'' = 8" "decimal ''23'' = 23" "decimal ''59'' = 59"
  by (simp_all add: decimal_def)

lemma digit_consts:
  "isDecimalDigit CHR ''0''" "isDecimalDigit CHR ''8''" "isDecimalDigit CHR ''2''"
  "isDecimalDigit CHR ''3''" "isDecimalDigit CHR ''5''" "isDecimalDigit CHR ''9''"
  by (simp_all add: isDecimalDigit_def)

lemma parse_holiday_bounds:
  assumes "validCivilDate date"
  shows "parseDateTime (date @ ''T00:00:00+08:00'') = Some (civilDay date * 86400000 - 28800000)"
    and "parseDateTime (date @ ''T23:59:59+08:00'') = Some (civilDay date * 86400000 + 57599000)"
proof -
  from assms have "length date = 10" by (simp add: validCivilDate_def)
  then obtain a b c d e f g h i j where date: "date = [a, b, c, d, e, f, g, h, i, j]"
    by (rule length_ten)
  have sl: "slice 0 4 date = [a, b, c, d]" "slice 5 7 date = [f, g]" "slice 8 10 date = [i, j]"
    by (simp_all add: slice_def date)
  from assms have v: "e = CHR ''-''" "h = CHR ''-''"
    "isDecimalDigit a" "isDecimalDigit b" "isDecimalDigit c" "isDecimalDigit d"
    "isDecimalDigit f" "isDecimalDigit g" "isDecimalDigit i" "isDecimalDigit j"
    "1 \<le> decimal [f, g]" "decimal [f, g] \<le> 12" "1 \<le> decimal [i, j]"
    "decimal [i, j] \<le> DaysInMonth (decimal [a, b, c, d]) (decimal [f, g])"
    unfolding validCivilDate_def sl by (simp_all add: date)
  show "parseDateTime (date @ ''T00:00:00+08:00'') = Some (civilDay date * 86400000 - 28800000)"
    unfolding civilDay_def sl
    by (simp add: parseDateTime_def date slice_def v decimal_consts digit_consts)
  show "parseDateTime (date @ ''T23:59:59+08:00'') = Some (civilDay date * 86400000 + 57599000)"
    unfolding civilDay_def sl
    by (simp add: parseDateTime_def date slice_def v decimal_consts digit_consts)
qed

lemma localDay_shift:
  "localDay off (D * 86400000 + r) = D + (r + off * 60000) div 86400000"
proof -
  have "D * 86400000 + r + off * 60000 = (r + off * 60000) + 86400000 * D" by simp
  then show ?thesis unfolding localDay_def by (simp only: div_mult_self2)
qed

lemma localDay_start:
  "localDay off (D * 86400000 - 28800000) = D \<longleftrightarrow> 480 \<le> off \<and> off < 1920"
proof -
  have "localDay off (D * 86400000 - 28800000) = D + (- 28800000 + off * 60000) div 86400000"
    using localDay_shift[of off D "- 28800000"] by simp
  then show ?thesis by (simp add: zdiv_eq_0_iff) linarith
qed

lemma localDay_end:
  "localDay off (D * 86400000 + 57599000) = D \<longleftrightarrow> - 959 \<le> off \<and> off \<le> 480"
proof -
  have "localDay off (D * 86400000 + 57599000) = D + (57599000 + off * 60000) div 86400000"
    by (rule localDay_shift)
  then show ?thesis by (simp add: zdiv_eq_0_iff) linarith
qed

section \<open>Properties of placement and of the day-frame height\<close>

lemma Math_round_ge: "real_of_int n \<le> x \<Longrightarrow> n \<le> Math_round x"
  unfolding Math_round_def by (simp add: le_floor_iff)

lemma Math_round_le: "x \<le> real_of_int n \<Longrightarrow> Math_round x \<le> n"
  unfolding Math_round_def by (simp add: floor_le_iff)

lemma computePosition_lower:
  assumes "computePosition a (Some (w, h)) vw vh = (l, t)"
  shows "16 \<le> l \<and> 16 \<le> t"
proof -
  define left0 where "left0 = (if anchorRight a + 12 + w + 16 > vw then anchorLeft a - w - 12 else anchorRight a + 12)"
  define left1 where "left1 = (if left0 < 16 then 16 else left0)"
  define top0 where "top0 = (if anchorTop a + h + 16 > vh then max 16 (anchorBottom a - h - 12) else anchorTop a)"
  define top1 where "top1 = (if top0 < 16 then 16 else top0)"
  have "computePosition a (Some (w, h)) vw vh = (Math_round left1, Math_round top1)"
    by (simp add: computePosition_def Let_def left0_def left1_def top0_def top1_def)
  with assms have lt: "l = Math_round left1" "t = Math_round top1" by simp_all
  have "real_of_int 16 \<le> left1" "real_of_int 16 \<le> top1" by (simp_all add: left1_def top1_def)
  then show ?thesis unfolding lt by (intro conjI Math_round_ge)
qed

lemma positionStyle_anchored:
  "\<exists>t l. positionStyle True (Some a) cs vw vh = Anchored t l"
  by (simp add: positionStyle_def Let_def)

lemma positionStyle_bounds:
  assumes "positionStyle True (Some a) cs vw vh = Anchored t l"
  shows "16 \<le> t"
    and "cardHeight cs + 32 \<le> vh \<Longrightarrow> t + cardHeight cs \<le> vh - 16"
    and "cardWidth cs + 32 \<le> vw \<Longrightarrow> 16 \<le> l \<and> l + cardWidth cs \<le> vw - 16"
  using assms
  by (auto simp: positionStyle_def Let_def cardWidth_def cardHeight_def split: if_splits)

lemma clamp_round: "48 \<le> Math_round (clampHeight v) \<and> Math_round (clampHeight v) \<le> 120"
proof
  have "real_of_int 48 \<le> clampHeight v" by (simp add: clampHeight_def)
  then show "48 \<le> Math_round (clampHeight v)" by (rule Math_round_ge)
  have "clampHeight v + 1 / 2 < 121" by (simp add: clampHeight_def)
  then have "\<lfloor>clampHeight v + 1 / 2\<rfloor> < 121" by (simp add: floor_less_iff)
  then show "Math_round (clampHeight v) \<le> 120" by (simp add: Math_round_def)
qed

lemma updateMetrics_frame:
  assumes "m \<noteq> 0"
  shows "dayFrameMinHeight (updateMetrics rc host (Some m) s) =
     Some (Math_round (clampHeight ((m - 64) / real_of_int (if rc = 0 then 6 else rc))))"
  using assms by (simp add: updateMetrics_def Let_def)

lemma monthRows_weeks:
  assumes "1 \<le> k" "\<bar>d\<bar> \<le> 3600000"
  shows "monthRows t (t + 7 * k * 86400000 + d) = k"
proof -
  define x where "x = real_of_int (t + 7 * k * 86400000 + d - t) / (24 * 60 * 60 * 1000)"
  have x: "x = real_of_int (7 * k) + real_of_int d / 86400000"
    by (simp add: x_def field_simps)
  have "\<lfloor>x + 1 / 2\<rfloor> = 7 * k"
  proof (rule floor_unique)
    show "real_of_int (7 * k) \<le> x + 1 / 2" using assms(2) unfolding x by simp
    show "x + 1 / 2 < real_of_int (7 * k) + 1" using assms(2) unfolding x by simp
  qed
  then have ad: "Math_round x = 7 * k" by (simp add: Math_round_def)
  have "\<lfloor>real_of_int (7 * k) / 7 + 1 / 2\<rfloor> = k"
    by (rule floor_unique) simp_all
  then have r: "Math_round (real_of_int (max 1 (7 * k)) / 7) = k"
    using assms(1) by (simp add: Math_round_def max_def)
  show ?thesis
    unfolding monthRows_def Let_def x_def[symmetric] ad r using assms(1) by simp
qed

lemma run_snoc: "run (evs @ [e]) = step (run evs) e"
  by (simp add: run_def)

lemma updateMetrics_rows [simp]:
  "monthWeekRowCount (updateMetrics rc host explicit s) = monthWeekRowCount s"
  by (simp add: updateMetrics_def Let_def)

lemma step_rows_positive:
  assumes "1 \<le> monthWeekRowCount s"
  shows "1 \<le> monthWeekRowCount (step s e)"
proof (cases e)
  case (DatesSet v a b)
  have "1 \<le> monthRows a b" by (simp add: monthRows_def Let_def)
  with assms DatesSet show ?thesis by (simp add: handleDatesSet_def)
qed (use assms in simp_all)

lemma run_rows_positive: "1 \<le> monthWeekRowCount (run evs)"
proof (induction evs rule: rev_induct)
  case Nil
  then show ?case by (simp add: run_def initialState_def)
next
  case (snoc e evs)
  then show ?case unfolding run_snoc by (rule step_rows_positive)
qed

lemma step_resized:
  assumes "m \<noteq> 0"
  shows "calendarViewportHeight (step s (Resized m)) = Some m"
    and "dayFrameMinHeight (step s (Resized m)) = Some (Math_round (clampHeight ((m - 64) / 6)))"
    and "monthWeekRowCount (step s (Resized m)) = monthWeekRowCount s"
  using assms by (simp_all add: updateMetrics_def Let_def initialState_def)

text \<open>The overflow popover has no bound on the far side, where the event-detail card
  has one: for an anchor flush against the bottom edge and the same content the popover
  ends at 756 and the card at 752.\<close>

lemma computePosition_far_side:
  "computePosition (sampleAnchor 100 700 200 768) (Some (300, 400)) 1024 768 = (212, 356)
   \<and> positionStyle True (Some (sampleAnchor 100 700 200 768)) (300, 400) 1024 768
       = Anchored 352 212"
  by (simp add: computePosition_def positionStyle_def sampleAnchor_def Math_round_def)

section \<open>Claims about the colour functions\<close>




text \<open>
  C6. The claim: every input that is not a well-formed colour gets the safe default,
  \<open>#ffffff\<close> with \<open>preferLight\<close> and \<open>#111827\<close> without. The two guards of the function
  cover the empty string and a wrong length only. Six characters that are not radix-16
  digits pass both guards, \<open>parseInt\<close> gives \<open>NaN\<close>, both comparisons with the luminance
  are false, and the function answers \<open>#1f2937\<close> with \<open>preferLight\<close> and \<open>#ffffff\<close> without:
  neither is the default of its mode.
\<close>

theorem getAdaptiveTextColor_nonhex_input:
  "\<not> wellFormedHex ''zzzzzz''
   \<and> getAdaptiveTextColor ''zzzzzz'' True = ''#1f2937''
   \<and> getAdaptiveTextColor ''zzzzzz'' False = ''#ffffff''"
proof -
  have nz: "\<not> isHexDigit CHR ''z''" by (simp add: isHexDigit_def hexDigitValue_def)
  have "\<not> wellFormedHex ''zzzzzz''" by (simp add: wellFormedHex_def hexDigitsOf_def nz)
  moreover have p: "parseInt16 ''zz'' = None"
    by (simp add: parseInt16_def isStrWhiteSpace_def nz)
  have "luminanceOf ''zzzzzz'' = None"
    by (simp add: luminanceOf_def channel255_def slice_def p)
  then have "getAdaptiveTextColor ''zzzzzz'' True = ''#1f2937''"
    "getAdaptiveTextColor ''zzzzzz'' False = ''#ffffff''"
    by (simp_all add: getAdaptiveTextColor_def numLess_def numGreater_def)
  ultimately show ?thesis by simp
qed

text \<open>
  C7. The claim \<open>lighten(hex, 0) = hex\<close> fails as an equality of strings: the result is
  always written as \<open>#\<close> and six lower-case digits, so \<open>#C8E6C9\<close> (the holiday
  background of the component) comes back as \<open>#c8e6c9\<close>.
\<close>

theorem lightenColor_identity_counterexample:
  "wellFormedHex ''#C8E6C9'' \<and> lightenColor ''#C8E6C9'' 0 = ''#c8e6c9''
   \<and> lightenColor ''#C8E6C9'' 0 \<noteq> ''#C8E6C9''"
proof -
  have wf: "wellFormedHex ''#C8E6C9''"
    by (simp add: wellFormedHex_def hexDigitsOf_def isHexDigit_def hexDigitValue_def)
  then have "lightenColor ''#C8E6C9'' 0 = ''#c8e6c9''"
    by (simp add: lightenColor_ratio_0 canonicalHex_def hexDigitsOf_def lowerHexChar_def char_of_eq)
  with wf show ?thesis by simp
qed

text \<open>
  C7, as amended. For every well-formed colour string, \<open>lightenColor hex 0\<close> is the
  same colour in canonical spelling (\<open>#\<close> and the six digits in lower case), hence equal
  to \<open>hex\<close> exactly when \<open>hex\<close> is spelled that way; \<open>lightenColor hex 1\<close> is \<open>#ffffff\<close>;
  and for every ratio in \<open>[0, 1]\<close> the three output channels lie in \<open>[0, 255]\<close>.
\<close>

theorem lightenColor_boundary_laws:
  assumes "wellFormedHex hex"
  shows "lightenColor hex 0 = canonicalHex hex
    \<and> (lightenColor hex 0 = hex \<longleftrightarrow> hex = canonicalHex hex)
    \<and> lightenColor hex 1 = ''#ffffff''
    \<and> (0 \<le> ratio \<and> ratio \<le> 1 \<longrightarrow>
         (\<exists>lr lg lb. lightenChannels hex ratio = Some [lr, lg, lb]
            \<and> 0 \<le> lr \<and> lr \<le> 255 \<and> 0 \<le> lg \<and> lg \<le> 255 \<and> 0 \<le> lb \<and> lb \<le> 255))"
proof (intro conjI impI)
  show c: "lightenColor hex 0 = canonicalHex hex"
    using assms by (rule lightenColor_ratio_0)
  show "lightenColor hex 0 = hex \<longleftrightarrow> hex = canonicalHex hex"
    unfolding c by auto
  show "lightenColor hex 1 = ''#ffffff''"
    using assms by (rule lightenColor_ratio_1)
next
  assume "0 \<le> ratio \<and> ratio \<le> 1"
  then show "\<exists>lr lg lb. lightenChannels hex ratio = Some [lr, lg, lb]
            \<and> 0 \<le> lr \<and> lr \<le> 255 \<and> 0 \<le> lg \<and> lg \<le> 255 \<and> 0 \<le> lb \<and> lb \<le> 255"
    using lightenChannels_range[OF assms] by blast
qed

theorem lightenColor_boundary_laws_witness:
  "wellFormedHex ''#1a73e8'' \<and> lightenColor ''#1a73e8'' 0 = ''#1a73e8''
   \<and> lightenColor ''#1a73e8'' 1 = ''#ffffff''
   \<and> (0::real) \<le> 1 / 2 \<and> (1::real) / 2 \<le> 1
   \<and> (\<exists>lr lg lb. lightenChannels ''#1a73e8'' (1 / 2) = Some [lr, lg, lb]
        \<and> 0 \<le> lr \<and> lr \<le> 255 \<and> 0 \<le> lg \<and> lg \<le> 255 \<and> 0 \<le> lb \<and> lb \<le> 255)"
proof -
  have can: "canonicalHex ''#1a73e8'' = ''#1a73e8''"
    by (simp add: canonicalHex_def hexDigitsOf_def lowerHexChar_def)
  show ?thesis
    using lightenColor_boundary_laws[OF wellFormedHex_google_blue, of "1 / 2"] wellFormedHex_google_blue by (simp add: can)
qed

text \<open>
  C10. The claim adds that only well-formed six-digit inputs are ever transformed. That
  part fails: \<open>parseInt\<close> reads the longest prefix of digits, so \<open>12345g\<close> passes the three
  guards with the number \<open>0x12345\<close> and is rewritten.
\<close>

theorem lightenColor_malformed_counterexample:
  "\<not> wellFormedHex ''12345g'' \<and> lightenColor ''12345g'' (4 / 5) = ''#ccd3da''
   \<and> lightenColor ''12345g'' (4 / 5) \<noteq> ''12345g''"
proof -
  have "\<not> isHexDigit CHR ''g''" by (simp add: isHexDigit_def hexDigitValue_def)
  then have "\<not> wellFormedHex ''12345g''" by (simp add: wellFormedHex_def hexDigitsOf_def)
  moreover have "lightenColor ''12345g'' (4 / 5) = ''#ccd3da''"
    by (simp add: lightenColor_def lightenChannels_def parseInt16_digit_prefix ToInt32_def mixChannel_def Math_round_def
        padStart_def toString16_def hexDigitChar_def)
  ultimately show ?thesis by simp
qed

text \<open>
  C10, as amended. For every ratio \<open>lightenColor\<close> returns its input unchanged whenever
  the input is empty, is not exactly six characters after the first \<open>#\<close> is removed, or
  \<open>parseInt\<close> of the remainder in radix 16 is \<open>NaN\<close>; the latter holds in particular when
  the remainder starts with a character that is no digit, white space or sign. (A
  remainder that merely starts with digits is transformed.) On the empty string and on
  a wrong length \<open>getAdaptiveTextColor\<close> instead answers its fixed default.
\<close>

theorem lightenColor_identity_fallback:
  "(hex = [] \<or> length (replaceFirst CHR ''#'' [] hex) \<noteq> 6
      \<or> parseInt16 (replaceFirst CHR ''#'' [] hex) = None
     \<longrightarrow> lightenColor hex ratio = hex)
   \<and> (N \<noteq> [] \<and> \<not> isHexDigit (hd N) \<and> \<not> isStrWhiteSpace (hd N)
        \<and> hd N \<noteq> CHR ''+'' \<and> hd N \<noteq> CHR ''-''
     \<longrightarrow> parseInt16 N = None)
   \<and> (hex = [] \<or> length (replaceFirst CHR ''#'' [] hex) \<noteq> 6
     \<longrightarrow> getAdaptiveTextColor hex preferLight = (if preferLight then ''#ffffff'' else ''#111827''))"
proof (intro conjI impI)
  assume "hex = [] \<or> length (replaceFirst CHR ''#'' [] hex) \<noteq> 6
      \<or> parseInt16 (replaceFirst CHR ''#'' [] hex) = None"
  then show "lightenColor hex ratio = hex" by (rule lightenColor_guard)
next
  assume "N \<noteq> [] \<and> \<not> isHexDigit (hd N) \<and> \<not> isStrWhiteSpace (hd N)
        \<and> hd N \<noteq> CHR ''+'' \<and> hd N \<noteq> CHR ''-''"
  then show "parseInt16 N = None" by (intro parseInt16_no_digit) simp_all
next
  assume "hex = [] \<or> length (replaceFirst CHR ''#'' [] hex) \<noteq> 6"
  then show "getAdaptiveTextColor hex preferLight = (if preferLight then ''#ffffff'' else ''#111827'')"
    by (auto simp: getAdaptiveTextColor_def Let_def)
qed

theorem lightenColor_identity_fallback_witness:
  "length (replaceFirst CHR ''#'' [] ''#zzz'') \<noteq> 6
   \<and> lightenColor ''#zzz'' (4 / 5) = ''#zzz''
   \<and> getAdaptiveTextColor ''#zzz'' True = ''#ffffff''
   \<and> \<not> isHexDigit (hd ''zzzzzz'') \<and> \<not> isStrWhiteSpace (hd ''zzzzzz'')
   \<and> parseInt16 (replaceFirst CHR ''#'' [] ''zzzzzz'') = None
   \<and> lightenColor ''zzzzzz'' (4 / 5) = ''zzzzzz''"
proof -
  have nz: "\<not> isHexDigit CHR ''z''" "\<not> isStrWhiteSpace CHR ''z''"
    by (simp_all add: isHexDigit_def hexDigitValue_def isStrWhiteSpace_def)
  have a: "parseInt16 ''zzzzzz'' = None"
    using lightenColor_identity_fallback[of "[]" 0 "''zzzzzz''" True] nz by simp
  have b: "lightenColor ''zzzzzz'' (4 / 5) = ''zzzzzz''"
    using lightenColor_identity_fallback[of "''zzzzzz''" "4 / 5" "[]" True] a by simp
  have c: "lightenColor ''#zzz'' (4 / 5) = ''#zzz''" "getAdaptiveTextColor ''#zzz'' True = ''#ffffff''"
    using lightenColor_identity_fallback[of "''#zzz''" "4 / 5" "[]" True] by simp_all
  show ?thesis using a b c nz by simp
qed

section \<open>Claims about the conversion\<close>

text \<open>
  C1. The claim: an event whose start or end does not parse is excluded from the
  result. The conversion has no such filter. With the calendar of one selected user
  holding an event with empty date strings and a well-dated sibling, both come out, the
  first with an \<open>Invalid Date\<close> as start and end.
\<close>

theorem events_invalid_date_counterexample:
  "parseDateTime (dateTime (start (sampleEvent ''bad'' ''amy@fas.com'' [] []))) = None
   \<and> map_sum id (map fcId) (events parseDateTime 1700000000000
        (sampleProps [(''amy@fas.com'',
           [sampleEvent ''bad'' ''amy@fas.com'' [] [],
            sampleEvent ''good'' ''amy@fas.com'' ''2024-01-01T00:00:00+08:00''
              ''2024-01-01T00:00:00+08:00''])] []))
       = Inr [''amy@fas.com-bad'', ''amy@fas.com-good'']
   \<and> map_sum id (map fcStart) (events parseDateTime 1700000000000
        (sampleProps [(''amy@fas.com'',
           [sampleEvent ''bad'' ''amy@fas.com'' [] [],
            sampleEvent ''good'' ''amy@fas.com'' ''2024-01-01T00:00:00+08:00''
              ''2024-01-01T00:00:00+08:00''])] []))
       = Inr [None, Some 1704038400000]"
proof -
  let ?p = "sampleProps [(''amy@fas.com'',
           [sampleEvent ''bad'' ''amy@fas.com'' [] [],
            sampleEvent ''good'' ''amy@fas.com'' ''2024-01-01T00:00:00+08:00''
              ''2024-01-01T00:00:00+08:00''])] []"
  have e: "events parseDateTime 1700000000000 ?p =
     Inr (map (personalEvent parseDateTime 1700000000000 None ''amy@fas.com'' ''amy'' ''#3174ad'')
           [sampleEvent ''bad'' ''amy@fas.com'' [] [],
            sampleEvent ''good'' ''amy@fas.com'' ''2024-01-01T00:00:00+08:00''
              ''2024-01-01T00:00:00+08:00''])"
    by (simp add: events_def userEventsOf_def Let_def sample_colour sample_name sampleProps_sel)
  show ?thesis
    unfolding e by (simp add: sampleEvent_def parse_empty parse_2024)
qed

text \<open>
  C1, as amended. Take any parser of date strings, any clock reading and any input in
  which no owner address under which a base colour is looked up (the key of a selected
  calendar, the \<open>userEmail\<close> of an on-call entry when those are shown) is the name of a
  property that every plain object inherits, such as \<open>constructor\<close>. Then the conversion
  returns (it does not throw) and drops nothing: the result holds exactly one event for
  each event of a selected user, each holiday when holidays are shown and each on-call
  entry when those are shown, in that order, with the source's title, whatever the date
  strings are; start and end are what the \<open>Date\<close> constructor makes of the strings, an
  \<open>Invalid Date\<close> where they do not parse. Valid siblings of a bad record are therefore
  present, and so is the bad record.
\<close>

theorem events_convert_every_source_event:
  assumes "\<forall>k \<in> set (ownerKeys props). k \<notin> set objectPrototypeKeys"
  shows "\<exists>evs. events parse now props = Inr evs
           \<and> length evs = length (sourceEvents props)
           \<and> map title evs = map subject (sourceEvents props)
           \<and> map fcStart evs = map (\<lambda>e. parse (dateTime (start e))) (sourceEvents props)
           \<and> map fcEnd evs = map (\<lambda>e. parse (dateTime (end' e))) (sourceEvents props)"
proof -
  from events_fields[OF assms, of parse now] obtain evs where
    e: "events parse now props = Inr evs" and
    s: "map fcStart evs = map (\<lambda>e. parse (dateTime (start e))) (sourceEvents props)" and
    f: "map fcEnd evs = map (\<lambda>e. parse (dateTime (end' e))) (sourceEvents props)" and
    t: "map title evs = map subject (sourceEvents props)"
    by blast
  from arg_cong[OF t, of length] have "length evs = length (sourceEvents props)" by simp
  with e s f t show ?thesis by blast
qed

theorem events_convert_every_source_event_witness:
  "ownerKeys (sampleProps [(''amy@fas.com'', [sampleEvent ''bad'' ''amy@fas.com'' [] []])]
         [createHoliday ''New Year'' ''2024-01-01'']) = [''amy@fas.com'']
   \<and> ''amy@fas.com'' \<notin> set objectPrototypeKeys
   \<and> map_sum id length (events parseDateTime 1700000000000
        (sampleProps [(''amy@fas.com'', [sampleEvent ''bad'' ''amy@fas.com'' [] []])]
           [createHoliday ''New Year'' ''2024-01-01''])) = Inr 2
   \<and> map_sum id (map fcStart) (events parseDateTime 1700000000000
        (sampleProps [(''amy@fas.com'', [sampleEvent ''bad'' ''amy@fas.com'' [] []])]
           [createHoliday ''New Year'' ''2024-01-01''])) = Inr [None, Some 1704038400000]"
proof -
  let ?p = "sampleProps [(''amy@fas.com'', [sampleEvent ''bad'' ''amy@fas.com'' [] []])]
         [createHoliday ''New Year'' ''2024-01-01'']"
  have o: "ownerKeys ?p = [''amy@fas.com'']"
    by (simp add: ownerKeys_def sampleProps_def)
  have n: "''amy@fas.com'' \<notin> set objectPrototypeKeys"
    by (simp add: objectPrototypeKeys_def)
  have k: "\<forall>k \<in> set (ownerKeys ?p). k \<notin> set objectPrototypeKeys"
    unfolding o using n by simp
  have s: "sourceEvents ?p = [sampleEvent ''bad'' ''amy@fas.com'' [] [],
                              createHoliday ''New Year'' ''2024-01-01'']"
    by (simp add: sourceEvents_def sampleProps_def)
  have d: "map (\<lambda>e. parseDateTime (dateTime (start e))) (sourceEvents ?p)
           = [None, Some 1704038400000]"
    unfolding s by (simp add: sampleEvent_def createHoliday_def parse_empty parse_2024)
  from events_convert_every_source_event[OF k, of parseDateTime 1700000000000]
  obtain evs where e: "events parseDateTime 1700000000000 ?p = Inr evs"
    and l: "length evs = length (sourceEvents ?p)"
    and f: "map fcStart evs = map (\<lambda>e. parseDateTime (dateTime (start e))) (sourceEvents ?p)"
    by blast
  from l have l2: "length evs = 2" unfolding s by simp
  from f have f2: "map fcStart evs = [None, Some 1704038400000]" unfolding d .
  show ?thesis
    unfolding e using o n l2 f2 by simp
qed

text \<open>
  C8. The claim: for all owner addresses and all identifiers a person's or on-call
  identifier never equals a holiday identifier. It fails for an address that begins
  with \<open>holiday-\<close>: the event \<open>42\<close> of \<open>holiday-team@fas.com\<close> and a holiday whose id is
  \<open>team@fas.com-42\<close> both get \<open>holiday-team@fas.com-42\<close>.
\<close>

theorem display_id_collision_counterexample:
  "fcId (personalEvent parseDateTime 1700000000000 None ''holiday-team@fas.com'' ''holiday-team''
           ''#3174ad'' (sampleEvent ''42'' ''holiday-team@fas.com'' [] []))
   = fcId (holidayEvent parseDateTime 1700000000000 None
           (sampleEvent ''team@fas.com-42'' ''holiday@taiwan'' [] []))"
  by (simp add: sampleEvent_def)

text \<open>
  C8, as amended. The identifiers \<open>email-id\<close> of a person's event and \<open>userEmail-id\<close> of an
  on-call event differ from every holiday identifier \<open>holiday-id\<close> whenever the address
  is not \<open>holiday\<close> and does not begin with \<open>holiday-\<close>. For the holidays that
  \<open>createHoliday\<close> builds from a date without \<open>@\<close> they differ for every address that
  contains \<open>@\<close>.
\<close>

theorem display_ids_disjoint:
  "(\<not> prefix ''holiday-'' (owner @ ''-'') \<longrightarrow>
      fcId (personalEvent parse now sel owner name baseColor e) \<noteq> fcId (holidayEvent parse now sel h)
      \<and> (userEmail oc = owner \<longrightarrow>
           fcId (oncallEvent parse now sel colorMap oc) \<noteq> fcId (holidayEvent parse now sel h)))
   \<and> (CHR ''@'' \<in> set owner \<and> CHR ''@'' \<notin> set date \<longrightarrow>
      fcId (personalEvent parse now sel owner name baseColor e)
        \<noteq> fcId (holidayEvent parse now sel (createHoliday subj date))
      \<and> (userEmail oc = owner \<longrightarrow>
           fcId (oncallEvent parse now sel colorMap oc)
             \<noteq> fcId (holidayEvent parse now sel (createHoliday subj date))))"
proof (intro conjI impI)
  assume np: "\<not> prefix ''holiday-'' (owner @ ''-'')"
  show "fcId (personalEvent parse now sel owner name baseColor e) \<noteq> fcId (holidayEvent parse now sel h)"
    using id_no_collision[OF np] by simp
  assume "userEmail oc = owner"
  then show "fcId (oncallEvent parse now sel colorMap oc) \<noteq> fcId (holidayEvent parse now sel h)"
    using id_no_collision[OF np] by simp
next
  assume at: "CHR ''@'' \<in> set owner \<and> CHR ''@'' \<notin> set date"
  have ne: "owner @ ''-'' @ x \<noteq> ''holiday-'' @ ''holiday-'' @ date" for x
  proof -
    have "CHR ''@'' \<in> set (owner @ ''-'' @ x)" using at by simp
    moreover have "CHR ''@'' \<notin> set (''holiday-'' @ ''holiday-'' @ date)" using at by simp
    ultimately show ?thesis by metis
  qed
  show "fcId (personalEvent parse now sel owner name baseColor e)
        \<noteq> fcId (holidayEvent parse now sel (createHoliday subj date))"
    using ne[of "id' e"] by (simp add: createHoliday_def)
  assume "userEmail oc = owner"
  then show "fcId (oncallEvent parse now sel colorMap oc)
             \<noteq> fcId (holidayEvent parse now sel (createHoliday subj date))"
    using ne[of "id' oc"] by (simp add: createHoliday_def)
qed

theorem display_ids_disjoint_witness:
  "\<not> prefix ''holiday-'' (''amy@fas.com'' @ ''-'')
   \<and> CHR ''@'' \<in> set ''amy@fas.com'' \<and> CHR ''@'' \<notin> set ''2024-01-01''
   \<and> userEmail (sampleEvent ''7'' ''amy@fas.com'' [] []) = ''amy@fas.com''
   \<and> fcId (personalEvent parseDateTime 0 None ''amy@fas.com'' ''amy'' ''#3174ad''
             (sampleEvent ''holiday-2024-01-01'' ''amy@fas.com'' [] []))
       \<noteq> fcId (holidayEvent parseDateTime 0 None (createHoliday ''New Year'' ''2024-01-01''))
   \<and> fcId (oncallEvent parseDateTime 0 None Map.empty (sampleEvent ''7'' ''amy@fas.com'' [] []))
       \<noteq> fcId (holidayEvent parseDateTime 0 None (createHoliday ''New Year'' ''2024-01-01''))"
proof -
  have a: "\<not> prefix ''holiday-'' (''amy@fas.com'' @ ''-'')" by simp
  have b: "CHR ''@'' \<in> set ''amy@fas.com'' \<and> CHR ''@'' \<notin> set ''2024-01-01''" by simp
  have c: "userEmail (sampleEvent ''7'' ''amy@fas.com'' [] []) = ''amy@fas.com''"
    by (simp add: sampleEvent_def)
  show ?thesis
    using a b c
      display_ids_disjoint[of "''amy@fas.com''" parseDateTime 0 None "''amy''" "''#3174ad''"
        "sampleEvent ''holiday-2024-01-01'' ''amy@fas.com'' [] []"
        "createHoliday ''New Year'' ''2024-01-01''" "sampleEvent ''7'' ''amy@fas.com'' [] []"
        Map.empty "''2024-01-01''" "''New Year''"]
    by blast
qed

text \<open>
  C9. \<open>onEventClick\<close> is never called for a holiday. Every event of the conversion's
  result that is marked \<open>isHoliday\<close> makes \<open>handleEventClick\<close> return before the call, and
  \<open>openEventDetail\<close>, which the overflow popover calls through \<open>onEventSelect\<close>, returns
  without the call and without an error, for it finds no source record: its owner is
  \<open>holiday@taiwan\<close>, the key looked up is \<open>holiday@taiwan-id\<close>, its identifier starts with
  \<open>holiday-\<close>, and it is no on-call event. This holds for every content of \<open>calendars\<close> and
  \<open>oncallEvents\<close>, and whenever the conversion has a result.
\<close>

theorem holiday_never_reaches_onEventClick:
  assumes "events parse now props = Inr evs"
  shows "\<forall>ev \<in> set evs.
     isHoliday (extendedProps ev) \<longrightarrow>
       handleEventClick props ev anchor = Inr None \<and> onEventSelect props ev anchor = Inr None"
proof (intro ballI impI)
  fix ev
  assume "ev \<in> set evs" "isHoliday (extendedProps ev)"
  then obtain h where "ev = holidayEvent parse now (selectedEventId props) h"
    using events_holiday_origin[OF assms] by blast
  then show "handleEventClick props ev anchor = Inr None \<and> onEventSelect props ev anchor = Inr None"
    by (simp add: handleEventClick_def onEventSelect_def openEventDetail_holiday)
qed

theorem holiday_never_reaches_onEventClick_witness:
  "events parseDateTime 0
         (sampleProps [(''holiday@taiwan'', [createHoliday ''New Year'' ''2024-01-01''])]
            [createHoliday ''New Year'' ''2024-01-01''])
     = Inr [personalEvent parseDateTime 0 None ''holiday@taiwan'' ''holiday'' ''#3174ad''
              (createHoliday ''New Year'' ''2024-01-01''),
            holidayEvent parseDateTime 0 None (createHoliday ''New Year'' ''2024-01-01'')]
   \<and> isHoliday (extendedProps
        (holidayEvent parseDateTime 0 None (createHoliday ''New Year'' ''2024-01-01'')))
   \<and> hasOnEventClick (sampleProps [(''holiday@taiwan'', [createHoliday ''New Year'' ''2024-01-01''])]
            [createHoliday ''New Year'' ''2024-01-01''])
   \<and> onEventSelect
        (sampleProps [(''holiday@taiwan'', [createHoliday ''New Year'' ''2024-01-01''])]
            [createHoliday ''New Year'' ''2024-01-01''])
        (holidayEvent parseDateTime 0 None (createHoliday ''New Year'' ''2024-01-01'')) None = Inr None"
proof -
  let ?h = "createHoliday ''New Year'' ''2024-01-01''"
  let ?p = "sampleProps [(''holiday@taiwan'', [?h])] [?h]"
  have m: "events parseDateTime 0 ?p
     = Inr [personalEvent parseDateTime 0 None ''holiday@taiwan'' ''holiday'' ''#3174ad'' ?h,
            holidayEvent parseDateTime 0 None ?h]"
    by (simp add: events_def userEventsOf_def Let_def ownerColor_def ownerName_def orElse_def
        orDefault_def getProperty_def userColorMap_def sampleProps_sel objectPrototypeKeys_def)
  have i: "isHoliday (extendedProps (holidayEvent parseDateTime 0 None ?h))" by simp
  have c: "hasOnEventClick ?p" by (simp add: sampleProps_def)
  from holiday_never_reaches_onEventClick[OF m, of None] i
  have "onEventSelect ?p (holidayEvent parseDateTime 0 None ?h) None = Inr None" by simp
  with m i c show ?thesis by blast
qed

section \<open>Claims about popover placement\<close>

text \<open>
  C2. The claim: for every anchor, content size and viewport both placements keep the
  popover inside \<open>[padding, viewportSize - padding]\<close> on both axes. No position does so
  for content that is larger than the viewport less the two paddings, and both
  computations then keep the near side: in a viewport of 640 by 300 with content of
  360 by 320, both answer \<open>top = 16\<close>, so the content ends at 336, below \<open>300 - 16\<close>.
\<close>

theorem placement_oversized_counterexample:
  "computePosition (sampleAnchor 100 50 200 80) (Some (360, 320)) 640 300 = (212, 16)
   \<and> positionStyle True (Some (sampleAnchor 100 50 200 80)) (360, 320) 640 300 = Anchored 16 212
   \<and> \<not> ((16 :: real) + 320 \<le> 300 - 16)"
  by (simp add: computePosition_def positionStyle_def sampleAnchor_def Math_round_def)

text \<open>
  C2, as amended. The padding is 16. For every anchor, content size and viewport the
  overflow-popover placement gives \<open>left \<ge> padding\<close> and \<open>top \<ge> padding\<close>. The event-detail
  placement gives \<open>top \<ge> padding\<close>, and on each axis on which the card fits between the
  paddings (\<open>width + 2 padding \<le> viewportWidth\<close>, \<open>height + 2 padding \<le> viewportHeight\<close>) it
  keeps the card fully inside \<open>[padding, viewportSize - padding]\<close>, also for an anchor flush
  against an edge or beyond it. The size it places is the measured card, or 360 by 320
  while the measurement is 0. Nothing is said of the far side of the overflow popover.
\<close>

theorem placement_stays_inside:
  "(computePosition a (Some (w, h)) vw vh = (l, t) \<longrightarrow> 16 \<le> l \<and> 16 \<le> t)
   \<and> (positionStyle True (Some a) cardSize vw vh = Anchored t' l' \<longrightarrow>
        16 \<le> t'
        \<and> (cardHeight cardSize + 32 \<le> vh \<longrightarrow> t' + cardHeight cardSize \<le> vh - 16)
        \<and> (cardWidth cardSize + 32 \<le> vw \<longrightarrow> 16 \<le> l' \<and> l' + cardWidth cardSize \<le> vw - 16))"
proof (intro conjI impI)
  assume c: "computePosition a (Some (w, h)) vw vh = (l, t)"
  show "16 \<le> l" "16 \<le> t" using computePosition_lower[OF c] by blast+
next
  assume p: "positionStyle True (Some a) cardSize vw vh = Anchored t' l'"
  show "16 \<le> t'" using p by (rule positionStyle_bounds(1))
  {
    assume "cardHeight cardSize + 32 \<le> vh"
    then show "t' + cardHeight cardSize \<le> vh - 16" using p by (intro positionStyle_bounds(2))
  }
  {
    assume "cardWidth cardSize + 32 \<le> vw"
    then show "16 \<le> l'" "l' + cardWidth cardSize \<le> vw - 16"
      using positionStyle_bounds(3)[OF p] by blast+
  }
qed

theorem placement_stays_inside_witness:
  "computePosition (sampleAnchor 900 700 1024 768) (Some (360, 320)) 1024 768 = (528, 436)
   \<and> (16 :: int) \<le> 528 \<and> (16 :: int) \<le> 436
   \<and> positionStyle True (Some (sampleAnchor 900 700 1024 768)) (0, 0) 1024 768 = Anchored 432 528
   \<and> cardHeight (0, 0) + 32 \<le> (768 :: real) \<and> cardWidth (0, 0) + 32 \<le> (1024 :: real)
   \<and> (16 :: real) \<le> 528 \<and> (528 :: real) + cardWidth (0, 0) \<le> 1024 - 16
   \<and> (16 :: real) \<le> 432 \<and> (432 :: real) + cardHeight (0, 0) \<le> 768 - 16"
proof -
  have c: "computePosition (sampleAnchor 900 700 1024 768) (Some (360, 320)) 1024 768 = (528, 436)"
    by (simp add: computePosition_def sampleAnchor_def Math_round_def)
  have p: "positionStyle True (Some (sampleAnchor 900 700 1024 768)) (0, 0) 1024 768 = Anchored 432 528"
    by (simp add: positionStyle_def sampleAnchor_def)
  have s: "cardHeight (0, 0) + 32 \<le> (768 :: real)" "cardWidth (0, 0) + 32 \<le> (1024 :: real)"
    by (simp_all add: cardHeight_def cardWidth_def)
  from placement_stays_inside[of "sampleAnchor 900 700 1024 768" 360 320 1024 768 528 436
      "(0, 0)" 432 528] c p s
  show ?thesis by simp
qed

section \<open>Claims about the month rows\<close>

text \<open>
  C3. The claim: the number of inline event chips per day cell is derived from the
  clamped per-row height. It is not: in month view it is the constant 2. With a month of
  six rows on display, a container of 352 pixels gives the frame height 48 and one of
  784 pixels gives 120, the two ends of the band, and the number of chips is 2 for both.
\<close>

theorem month_budget_counterexample:
  "monthWeekRowCount (run [Mounted 352, DatesSet dayGridMonth 0 3628800000, Resized 352]) = 6
   \<and> dayFrameMinHeight (run [Mounted 352, DatesSet dayGridMonth 0 3628800000, Resized 352]) = Some 48
   \<and> monthWeekRowCount (run [Mounted 784, DatesSet dayGridMonth 0 3628800000, Resized 784]) = 6
   \<and> dayFrameMinHeight (run [Mounted 784, DatesSet dayGridMonth 0 3628800000, Resized 784]) = Some 120
   \<and> dayMaxEvents dayGridMonth = Some 2"
proof -
  have r: "monthRows 0 3628800000 = 6"
    using monthRows_weeks[of 6 0 0] by simp
  have a: "run [Mounted 352, DatesSet dayGridMonth 0 3628800000, Resized 352]
      = \<lparr> monthWeekRowCount = 6, calendarViewportHeight = Some 352, dayFrameMinHeight = Some 48 \<rparr>"
    by (simp add: run_def initialState_def updateMetrics_def handleDatesSet_def r clampHeight_def
        Math_round_def)
  have b: "run [Mounted 784, DatesSet dayGridMonth 0 3628800000, Resized 784]
      = \<lparr> monthWeekRowCount = 6, calendarViewportHeight = Some 784, dayFrameMinHeight = Some 120 \<rparr>"
    by (simp add: run_def initialState_def updateMetrics_def handleDatesSet_def r clampHeight_def
        Math_round_def)
  show ?thesis
    unfolding a b by (simp add: dayMaxEvents_def)
qed

text \<open>
  C3, as amended. Take any sequence of mounts, date changes and resizes of the
  component. The row count is at least 1 throughout, and after a date change in month
  view to a range of \<open>k\<close> weeks, give or take an hour, it is \<open>k\<close>: the day span of the range
  divided by 7 and rounded. A resize to a height other than 0 records the new height,
  leaves the row count as it is, and sets the day-frame minimum height to a whole
  number of pixels in the band from 48 to 120; while the row count is 6 that number is
  the new height less the chrome offset 64, divided by the row count, clamped into the
  band and rounded. The number of inline event chips per day cell in month view is the
  constant 2 and is not derived from this height.
\<close>

theorem month_row_height:
  "1 \<le> monthWeekRowCount (run evs)
   \<and> (1 \<le> k \<and> \<bar>d\<bar> \<le> 3600000 \<longrightarrow>
        monthWeekRowCount (run (evs @ [DatesSet dayGridMonth t0 (t0 + 7 * k * 86400000 + d)])) = k)
   \<and> (m \<noteq> 0 \<longrightarrow>
        calendarViewportHeight (run (evs @ [Resized m])) = Some m
        \<and> monthWeekRowCount (run (evs @ [Resized m])) = monthWeekRowCount (run evs)
        \<and> (\<exists>px. dayFrameMinHeight (run (evs @ [Resized m])) = Some px \<and> 48 \<le> px \<and> px \<le> 120)
        \<and> (monthWeekRowCount (run evs) = 6 \<longrightarrow>
             dayFrameMinHeight (run (evs @ [Resized m]))
               = Some (Math_round (clampHeight ((m - 64) / real_of_int (monthWeekRowCount (run evs)))))))
   \<and> dayMaxEvents dayGridMonth = Some 2"
proof (intro conjI impI)
  show "1 \<le> monthWeekRowCount (run evs)" by (rule run_rows_positive)
  show "dayMaxEvents dayGridMonth = Some 2" by (simp add: dayMaxEvents_def)
next
  assume "1 \<le> k \<and> \<bar>d\<bar> \<le> 3600000"
  then have "monthRows t0 (t0 + 7 * k * 86400000 + d) = k" using monthRows_weeks by blast
  then show "monthWeekRowCount (run (evs @ [DatesSet dayGridMonth t0 (t0 + 7 * k * 86400000 + d)])) = k"
    unfolding run_snoc by (simp add: handleDatesSet_def)
next
  assume m: "m \<noteq> 0"
  show "calendarViewportHeight (run (evs @ [Resized m])) = Some m"
    unfolding run_snoc using m by (rule step_resized(1))
  show "monthWeekRowCount (run (evs @ [Resized m])) = monthWeekRowCount (run evs)"
    unfolding run_snoc using m by (rule step_resized(3))
  show "\<exists>px. dayFrameMinHeight (run (evs @ [Resized m])) = Some px \<and> 48 \<le> px \<and> px \<le> 120"
    unfolding run_snoc step_resized(2)[OF m] using clamp_round by blast
  assume "monthWeekRowCount (run evs) = 6"
  then show "dayFrameMinHeight (run (evs @ [Resized m]))
               = Some (Math_round (clampHeight ((m - 64) / real_of_int (monthWeekRowCount (run evs)))))"
    unfolding run_snoc step_resized(2)[OF m] by simp
qed

theorem month_row_height_witness:
  "(1 :: int) \<le> 5 \<and> \<bar>- 3600000 :: int\<bar> \<le> 3600000
   \<and> monthWeekRowCount (run ([Mounted 600, DatesSet dayGridMonth 1700000000000 1703628800000]
         @ [DatesSet dayGridMonth 1700000000000 (1700000000000 + 7 * 5 * 86400000 + - 3600000)])) = 5
   \<and> (700 :: real) \<noteq> 0
   \<and> monthWeekRowCount (run [Mounted 600, DatesSet dayGridMonth 1700000000000 1703628800000]) = 6
   \<and> calendarViewportHeight
        (run ([Mounted 600, DatesSet dayGridMonth 1700000000000 1703628800000] @ [Resized 700]))
       = Some 700
   \<and> dayFrameMinHeight
        (run ([Mounted 600, DatesSet dayGridMonth 1700000000000 1703628800000] @ [Resized 700]))
       = Some 106"
proof -
  have r: "monthRows 1700000000000 1703628800000 = 6"
    using monthRows_weeks[of 6 0 1700000000000] by simp
  have s: "monthWeekRowCount (run [Mounted 600, DatesSet dayGridMonth 1700000000000 1703628800000]) = 6"
    by (simp add: run_def handleDatesSet_def r)
  have px: "Math_round (clampHeight ((700 - 64) / 6)) = 106"
    by (simp add: clampHeight_def Math_round_def)
  from month_row_height[of "[Mounted 600, DatesSet dayGridMonth 1700000000000 1703628800000]"
      5 "- 3600000" 1700000000000 700] s px
  show ?thesis by simp
qed

section \<open>Claims about the holidays\<close>

text \<open>
  C4. The claim: the day cell of a holiday is the same for any two viewer time zones.
  The conversion turns the holiday's strings into instants and drops the declared
  zone. For the holiday of 2024-01-01 the start is 2023-12-31 16:00 UTC: its local day
  is 19723 (2024-01-01) for a viewer at UTC+08:00 and 19722 (2023-12-31) for a viewer
  at UTC.
\<close>

theorem holiday_day_counterexample:
  "map_option (localDay 480)
     (fcStart (holidayEvent parseDateTime 1700000000000 None (createHoliday ''New Year'' ''2024-01-01'')))
     = Some 19723
   \<and> map_option (localDay 0)
     (fcStart (holidayEvent parseDateTime 1700000000000 None (createHoliday ''New Year'' ''2024-01-01'')))
     = Some 19722"
  by (simp add: createHoliday_def parse_2024 localDay_def)

text \<open>
  C4, as amended. For every holiday that \<open>createHoliday\<close> builds from an existing civil
  date, the conversion gives as start and end the instants of 00:00:00 and 23:59:59 of
  that date at UTC+08:00. For a viewer whose zone is \<open>off\<close> minutes east of UTC the start
  falls on the holiday's civil date exactly when \<open>480 \<le> off < 1920\<close>, and start and end
  both fall on it exactly when \<open>off = 480\<close>: the span is closed at the day boundaries of
  Asia/Taipei as instants, and it coincides with a local day only for a viewer at
  UTC+08:00.
\<close>

theorem holiday_span_local_days:
  assumes "validCivilDate date"
  shows "fcStart (holidayEvent parseDateTime now sel (createHoliday subj date))
           = Some (civilDay date * 86400000 - 28800000)
    \<and> fcEnd (holidayEvent parseDateTime now sel (createHoliday subj date))
           = Some (civilDay date * 86400000 + 57599000)
    \<and> (localDay off (civilDay date * 86400000 - 28800000) = civilDay date
         \<longleftrightarrow> 480 \<le> off \<and> off < 1920)
    \<and> (localDay off (civilDay date * 86400000 - 28800000) = civilDay date
         \<and> localDay off (civilDay date * 86400000 + 57599000) = civilDay date
         \<longleftrightarrow> off = 480)"
proof (intro conjI)
  show "fcStart (holidayEvent parseDateTime now sel (createHoliday subj date))
           = Some (civilDay date * 86400000 - 28800000)"
    using parse_holiday_bounds(1)[OF assms] by (simp add: createHoliday_def)
  show "fcEnd (holidayEvent parseDateTime now sel (createHoliday subj date))
           = Some (civilDay date * 86400000 + 57599000)"
    using parse_holiday_bounds(2)[OF assms] by (simp add: createHoliday_def)
  show "localDay off (civilDay date * 86400000 - 28800000) = civilDay date
         \<longleftrightarrow> 480 \<le> off \<and> off < 1920"
    by (rule localDay_start)
  show "localDay off (civilDay date * 86400000 - 28800000) = civilDay date
         \<and> localDay off (civilDay date * 86400000 + 57599000) = civilDay date
         \<longleftrightarrow> off = 480"
    unfolding localDay_start localDay_end by auto
qed

theorem holiday_span_local_days_witness:
  "validCivilDate ''2024-01-01'' \<and> civilDay ''2024-01-01'' = 19723
   \<and> fcStart (holidayEvent parseDateTime 1700000000000 None (createHoliday ''New Year'' ''2024-01-01''))
       = Some 1704038400000
   \<and> fcEnd (holidayEvent parseDateTime 1700000000000 None (createHoliday ''New Year'' ''2024-01-01''))
       = Some 1704124799000
   \<and> localDay 480 1704038400000 = 19723 \<and> localDay 480 1704124799000 = 19723"
proof -
  have v: "validCivilDate ''2024-01-01''"
    by (simp add: validCivilDate_def slice_def isDecimalDigit_def decimal_digits DaysInMonth_def)
  have d: "civilDay ''2024-01-01'' = 19723"
    by (simp add: civilDay_def slice_def decimal_digits MakeDay_def DayFromYear_def
        DayWithinYear_def InLeapYear_def)
  from holiday_span_local_days[OF v, of 1700000000000 None "''New Year''" 480]
  show ?thesis using v by (simp add: d)
qed

end
